theory Spec2Isabelle
  imports Main "HOL-Library.AList"
begin

section \<open>Data model (src/src/naver-blog.ts, second document: workflow/types)\<close>

text \<open>
  Conventions of the embedding.
  \<^item> A JavaScript string is the list of the bytes of its UTF-8 encoding; the Korean
    literals of the source are written as their bytes (\<open>CHR 0x..\<close>).
  \<^item> A JavaScript \<open>number\<close> that holds a count or an instant is an \<open>int\<close>, and the
    arithmetic on it is exact, as that of doubles is on integers up to 2 to the power
    53, which all instants of a \<open>Date\<close> are. Where the source reads a number from a text
    the double is computed (\<open>Number\<close>), and where it can produce \<open>NaN\<close> or an infinity
    the type says so (\<open>number\<close>, \<open>num\<close>, \<open>TimeClip\<close>).
  \<^item> An optional field \<open>f?: T\<close> is a \<open>T option\<close>; \<open>None\<close> is \<open>undefined\<close>.
  \<^item> Field names are those of the source, prefixed where two interfaces share a name
    (\<open>id\<close>, \<open>name\<close>, \<open>maxTurns\<close>, \<open>enabled\<close>, \<open>type\<close>, \<open>logs\<close>).
\<close>

record WorkflowStep =
  step_id :: string
  step_name :: string
  prompt :: string
  step_maxTurns :: "int option"
  onSuccess :: string
  onFailure :: string
  retryCount :: "int option"

record Schedule =
  sch_enabled :: bool
  sch_type :: string
  intervalMinutes :: "int option"
  time :: "string option"
  dayOfWeek :: "int option"
  lastRun :: "int option"
  nextRun :: "int option"

record Workflow =
  wf_id :: string
  wf_name :: string
  description :: "string option"
  wf_enabled :: bool
  mission :: "string option"
  wf_maxTurns :: "int option"
  steps :: "WorkflowStep list"
  createdAt :: int
  updatedAt :: int
  schedule :: "Schedule option"

datatype log_type = Info | Success | Error | Condition

text \<open>
  The message of a log entry is a template of the source with its interpolated values;
  the constructor names the line of executor.ts that builds it. The elapsed time of
  lines 178 and 274 is kept as the two clock readings it is computed from.
\<close>

datatype log_message =
    MsgAgentRun string                \<comment> \<open>line 70, \<open>step.prompt\<close>\<close>
  | MsgText string                    \<comment> \<open>lines 77, 166 (the agent's text) and 248 (the error)\<close>
  | MsgStepDone string                \<comment> \<open>line 82, \<open>result.result\<close>\<close>
  | MsgStepFailed string              \<comment> \<open>line 85, \<open>result.result\<close>\<close>
  | MsgException string               \<comment> \<open>lines 89 and 195, the error's message\<close>
  | MsgAborted                        \<comment> \<open>line 103\<close>
  | MsgRetry int int                  \<comment> \<open>line 108, \<open>attempt\<close> and \<open>maxRetries\<close>\<close>
  | MsgMission string                 \<comment> \<open>line 158\<close>
  | MsgMissionTurns int               \<comment> \<open>line 159, \<open>maxTurns\<close>\<close>
  | MsgMissionDone string int int     \<comment> \<open>line 178, \<open>result.result\<close>, \<open>startTime\<close>, \<open>endTime\<close>\<close>
  | MsgMissionFailed string           \<comment> \<open>line 179\<close>
  | MsgWorkflowStart string           \<comment> \<open>line 219, \<open>workflow.name\<close>\<close>
  | MsgWorkflowDone nat int int       \<comment> \<open>line 274, \<open>stepsExecuted\<close>, \<open>startTime\<close>, \<open>endTime\<close>\<close>
  | MsgWorkflowFailed "string option" \<comment> \<open>line 275, \<open>error\<close>\<close>

record WorkflowLog =
  timestamp :: int
  stepId :: string
  stepName :: string
  log_type :: log_type
  message :: log_message

record WorkflowExecutionResult =
  success :: bool
  workflowId :: string
  startTime :: int
  endTime :: int
  stepsExecuted :: nat
  lastStepId :: "string option"
  error :: "string option"
  res_logs :: "WorkflowLog list"

definition DEFAULT_MAX_TURNS :: int where
  "DEFAULT_MAX_TURNS = 20"

text \<open>\<open>x || d\<close> on an optional number: \<open>undefined\<close> and \<open>0\<close> are falsy.\<close>

definition orNum :: "int option \<Rightarrow> int \<Rightarrow> int" where
  "orNum x d = (case x of None \<Rightarrow> d | Some v \<Rightarrow> if v = 0 then d else v)"

text \<open>The string literals of executor.ts that are not ASCII, as UTF-8 bytes.\<close>

definition ERR_LIMIT :: string where \<comment> \<open>line 247: step execution count exceeded (50)\<close>
  "ERR_LIMIT = [CHR 0xEB, CHR 0x8B, CHR 0xA8, CHR 0xEA, CHR 0xB3, CHR 0x84, CHR 0x20,
     CHR 0xEC, CHR 0x8B, CHR 0xA4, CHR 0xED, CHR 0x96, CHR 0x89, CHR 0x20, CHR 0xED,
     CHR 0x9A, CHR 0x9F, CHR 0xEC, CHR 0x88, CHR 0x98, CHR 0x20, CHR 0xEC, CHR 0xB4,
     CHR 0x88, CHR 0xEA, CHR 0xB3, CHR 0xBC, CHR 0x20, CHR 0x28, CHR 0x35, CHR 0x30,
     CHR 0xED, CHR 0x9A, CHR 0x8C, CHR 0x29]"

definition ERR_STEP_FAILED :: string where \<comment> \<open>line 257: workflow ended by a step failure\<close>
  "ERR_STEP_FAILED = [CHR 0xEB, CHR 0x8B, CHR 0xA8, CHR 0xEA, CHR 0xB3, CHR 0x84, CHR 0x20,
     CHR 0xEC, CHR 0x8B, CHR 0xA4, CHR 0xED, CHR 0x8C, CHR 0xA8, CHR 0xEB, CHR 0xA1,
     CHR 0x9C, CHR 0x20, CHR 0xEC, CHR 0x9B, CHR 0x8C, CHR 0xED, CHR 0x81, CHR 0xAC,
     CHR 0xED, CHR 0x94, CHR 0x8C, CHR 0xEB, CHR 0xA1, CHR 0x9C, CHR 0xEC, CHR 0x9A,
     CHR 0xB0, CHR 0x20, CHR 0xEC, CHR 0xA2, CHR 0x85, CHR 0xEB, CHR 0xA3, CHR 0x8C]"

definition ERR_ABORTED :: string where \<comment> \<open>line 263: aborted by the user\<close>
  "ERR_ABORTED = [CHR 0xEC, CHR 0x82, CHR 0xAC, CHR 0xEC, CHR 0x9A, CHR 0xA9, CHR 0xEC,
     CHR 0x9E, CHR 0x90, CHR 0xEC, CHR 0x97, CHR 0x90, CHR 0x20, CHR 0xEC, CHR 0x9D,
     CHR 0x98, CHR 0xED, CHR 0x95, CHR 0xB4, CHR 0x20, CHR 0xEC, CHR 0xA4, CHR 0x91,
     CHR 0xEB, CHR 0x8B, CHR 0xA8, CHR 0xEB, CHR 0x90, CHR 0xA8]"

definition ERR_EMPTY :: string where \<comment> \<open>line 234: enter a mission or steps\<close>
  "ERR_EMPTY = [CHR 0xEB, CHR 0xAF, CHR 0xB8, CHR 0xEC, CHR 0x85, CHR 0x98, CHR 0x20,
     CHR 0xEB, CHR 0x98, CHR 0x90, CHR 0xEB, CHR 0x8A, CHR 0x94, CHR 0x20, CHR 0xEB,
     CHR 0x8B, CHR 0xA8, CHR 0xEA, CHR 0xB3, CHR 0x84, CHR 0xEB, CHR 0xA5, CHR 0xBC,
     CHR 0x20, CHR 0xEC, CHR 0x9E, CHR 0x85, CHR 0xEB, CHR 0xA0, CHR 0xA5, CHR 0xED,
     CHR 0x95, CHR 0x98, CHR 0xEC, CHR 0x84, CHR 0xB8, CHR 0xEC, CHR 0x9A, CHR 0x94]"

definition MISSION_NAME :: string where \<comment> \<open>lines 158-195, the step name of mission logs\<close>
  "MISSION_NAME = [CHR 0xEB, CHR 0xAF, CHR 0xB8, CHR 0xEC, CHR 0x85, CHR 0x98]"

section \<open>Workflow executor (src/src/workflow/executor.ts, lines 1-289)\<close>

text \<open>
  The executor awaits two things: the Agent Runner (\<open>ctx.runStepAgent\<close>) and the
  one-second timer of a retry. Both belong to the host, which is a parameter of the
  model: a world of type \<open>'w\<close> and the functions below on it. While the executor
  waits, the host may call \<open>abort()\<close>; each awaited operation therefore reports
  whether that happened (\<open>abortCalled\<close>, and the \<open>bool\<close> of \<open>setTimeout\<close>).
  An \<open>abort()\<close> is thus counted with the agent call or the timer during which it
  arrives, and one that arrives before \<open>execute\<close> is called is the \<open>aborted\<close> of the
  initial state; awaiting the executor's own functions gives the host no other
  opportunity in the model. The \<open>onLog\<close> sink of the constructor only receives what
  \<open>logs\<close> already holds and is not modelled.
\<close>

datatype agent_outcome =
    Resolved bool string   \<comment> \<open>the promise resolves to \<open>{success, result}\<close>\<close>
  | Rejected string        \<comment> \<open>the promise rejects with an Error of this message\<close>

record agent_run =
  progress :: "(int \<times> string) list"  \<comment> \<open>texts given to the \<open>onLog\<close> argument, with the clock at each\<close>
  outcome :: agent_outcome
  abortCalled :: bool

record 'w host =
  runStepAgent :: "string \<Rightarrow> int \<Rightarrow> 'w \<Rightarrow> agent_run \<times> 'w"
  setTimeout :: "int \<Rightarrow> 'w \<Rightarrow> bool \<times> 'w"
  dateNow :: "'w \<Rightarrow> int"

text \<open>
  \<open>events\<close> is a ghost field: the awaited operations in the order the executor
  started them. No function of the model reads it.
\<close>

datatype event =
    AgentCall string int agent_run      \<comment> \<open>prompt, maxTurns and what the call came to\<close>
  | Timeout int                         \<comment> \<open>milliseconds\<close>

record 'w executor =
  aborted :: bool
  logs :: "WorkflowLog list"
  events :: "event list"
  world :: 'w

definition abort :: "'w executor \<Rightarrow> 'w executor" where
  "abort x = x\<lparr>aborted := True\<rparr>"

definition log :: "'w host \<Rightarrow> string \<Rightarrow> string \<Rightarrow> log_type \<Rightarrow> log_message \<Rightarrow>
    'w executor \<Rightarrow> 'w executor" where
  "log H sid sname ty msg x =
     x\<lparr>logs := logs x @
        [\<lparr>timestamp = dateNow H (world x), stepId = sid, stepName = sname,
          log_type = ty, message = msg\<rparr>]\<rparr>"

text \<open>The awaited agent call of lines 73-79 and 162-168, with the log lines it streams.\<close>

definition callAgent :: "'w host \<Rightarrow> string \<Rightarrow> string \<Rightarrow> string \<Rightarrow> int \<Rightarrow>
    'w executor \<Rightarrow> agent_outcome \<times> 'w executor" where
  "callAgent H sid sname p turns x =
     (let (run, w) = runStepAgent H p turns (world x) in
      (outcome run,
       x\<lparr>world := w,
         aborted := (aborted x \<or> abortCalled run),
         events := events x @ [AgentCall p turns run],
         logs := logs x @
           map (\<lambda>(t, text). \<lparr>timestamp = t, stepId = sid, stepName = sname,
                              log_type = Info, message = MsgText text\<rparr>) (progress run)\<rparr>))"

text \<open>The awaited timer of line 109.\<close>

definition delay :: "'w host \<Rightarrow> int \<Rightarrow> 'w executor \<Rightarrow> 'w executor" where
  "delay H ms x =
     (let (ab, w) = setTimeout H ms (world x) in
      x\<lparr>world := w, aborted := (aborted x \<or> ab), events := events x @ [Timeout ms]\<rparr>)"

definition executeStep :: "'w host \<Rightarrow> WorkflowStep \<Rightarrow> 'w executor \<Rightarrow> bool \<times> 'w executor" where
  "executeStep H step x =
     (let x1 = log H (step_id step) (step_name step) Info (MsgAgentRun (prompt step)) x;
          (res, x2) = callAgent H (step_id step) (step_name step) (prompt step)
                        (orNum (step_maxTurns step) DEFAULT_MAX_TURNS) x1
      in case res of
           Resolved ok result \<Rightarrow>
             if ok then (True, log H (step_id step) (step_name step) Success (MsgStepDone result) x2)
             else (False, log H (step_id step) (step_name step) Error (MsgStepFailed result) x2)
         | Rejected m \<Rightarrow>
             (False, log H (step_id step) (step_name step) Error (MsgException m) x2))"

text \<open>The \<open>while\<close> loop of lines 101-119; \<open>attempt\<close> is its counter.\<close>

function executeStepWithRetry_loop :: "'w host \<Rightarrow> WorkflowStep \<Rightarrow> int \<Rightarrow> int \<Rightarrow>
    'w executor \<Rightarrow> bool \<times> 'w executor" where
  "executeStepWithRetry_loop H step maxRetries attempt x =
     (if attempt \<le> maxRetries then
        if aborted x then
          (False, log H (step_id step) (step_name step) Error MsgAborted x)
        else
          (case executeStep H step
                  (if attempt > 0
                   then delay H 1000
                          (log H (step_id step) (step_name step) Info
                             (MsgRetry attempt maxRetries) x)
                   else x) of
             (ok, x') \<Rightarrow>
               if ok then (True, x')
               else executeStepWithRetry_loop H step maxRetries (attempt + 1) x')
      else (False, x))"
  by pat_completeness auto
termination
  by (relation "measure (\<lambda>(H, step, maxRetries, attempt, x). nat (maxRetries + 1 - attempt))")
     auto

definition executeStepWithRetry :: "'w host \<Rightarrow> WorkflowStep \<Rightarrow> 'w executor \<Rightarrow>
    bool \<times> 'w executor" where
  "executeStepWithRetry H step x =
     executeStepWithRetry_loop H step (orNum (retryCount step) 0) 0 x"

text \<open>\<open>Array.prototype.findIndex\<close>; \<open>None\<close> is the result \<open>-1\<close>.\<close>

fun findIndex :: "('a \<Rightarrow> bool) \<Rightarrow> 'a list \<Rightarrow> nat option" where
  "findIndex P [] = None"
| "findIndex P (y # ys) =
     (if P y then Some 0 else map_option Suc (findIndex P ys))"

definition findNextStep :: "Workflow \<Rightarrow> WorkflowStep \<Rightarrow> bool \<Rightarrow> WorkflowStep option" where
  "findNextStep wkf step ok =
     (let nextStepRef = (if ok then onSuccess step else onFailure step) in
      if nextStepRef = ''end'' then None
      else if nextStepRef = ''next'' then
        (case findIndex (\<lambda>s. step_id s = step_id step) (steps wkf) of
           None \<Rightarrow> None
         | Some currentIndex \<Rightarrow>
             if int currentIndex \<ge> int (length (steps wkf)) - 1 then None
             else Some (steps wkf ! (currentIndex + 1)))
      else if nextStepRef = ''retry'' then None
      else find (\<lambda>s. step_id s = nextStepRef) (steps wkf))"

text \<open>
  \<open>String.prototype.trim\<close> removes white space and line terminators at both ends:
  U+0009 to U+000D and U+0020 (one byte), U+00A0 (two bytes), U+1680, U+2000 to
  U+200A, U+2028, U+2029, U+202F, U+205F, U+3000 and U+FEFF (three bytes).
\<close>

definition ws1 :: "char \<Rightarrow> bool" where
  "ws1 a = (of_char a \<in> {9, 10, 11, 12, 13, 32 :: nat})"

definition ws2 :: "char \<Rightarrow> char \<Rightarrow> bool" where
  "ws2 a b = (a = CHR 0xC2 \<and> b = CHR 0xA0)"

definition ws3 :: "char \<Rightarrow> char \<Rightarrow> char \<Rightarrow> bool" where
  "ws3 a b c =
     ((a = CHR 0xE1 \<and> b = CHR 0x9A \<and> c = CHR 0x80) \<or>
      (a = CHR 0xE2 \<and> b = CHR 0x80 \<and>
         ((0x80 \<le> (of_char c :: nat) \<and> (of_char c :: nat) \<le> 0x8A) \<or>
          c = CHR 0xA8 \<or> c = CHR 0xA9 \<or> c = CHR 0xAF)) \<or>
      (a = CHR 0xE2 \<and> b = CHR 0x81 \<and> c = CHR 0x9F) \<or>
      (a = CHR 0xE3 \<and> b = CHR 0x80 \<and> c = CHR 0x80) \<or>
      (a = CHR 0xEF \<and> b = CHR 0xBB \<and> c = CHR 0xBF))"

fun trimStart :: "string \<Rightarrow> string" where
  "trimStart (a # b # c # s) =
     (if ws1 a then trimStart (b # c # s)
      else if ws2 a b then trimStart (c # s)
      else if ws3 a b c then trimStart s
      else a # b # c # s)"
| "trimStart [a, b] =
     (if ws1 a then trimStart [b] else if ws2 a b then [] else [a, b])"
| "trimStart [a] = (if ws1 a then [] else [a])"
| "trimStart [] = []"

text \<open>\<open>trimEnd\<close>, on the reversed string: the bytes of a character come last first.\<close>

fun trimStart_rev :: "string \<Rightarrow> string" where
  "trimStart_rev (c # b # a # s) =
     (if ws1 c then trimStart_rev (b # a # s)
      else if ws2 b c then trimStart_rev (a # s)
      else if ws3 a b c then trimStart_rev s
      else c # b # a # s)"
| "trimStart_rev [b, a] =
     (if ws1 b then trimStart_rev [a] else if ws2 a b then [] else [b, a])"
| "trimStart_rev [a] = (if ws1 a then [] else [a])"
| "trimStart_rev [] = []"

definition trim :: "string \<Rightarrow> string" where
  "trim s = rev (trimStart_rev (rev (trimStart s)))"

text \<open>
  \<open>this.workflow.mission!\<close> of line 155: \<open>execute\<close> calls \<open>executeMission\<close> only with a
  mission, and the model reads an absent one as the empty string.
\<close>

definition executeMission :: "'w host \<Rightarrow> Workflow \<Rightarrow> 'w executor \<Rightarrow>
    WorkflowExecutionResult \<times> 'w executor" where
  "executeMission H wkf x =
     (let start = dateNow H (world x);
          m = (case mission wkf of Some t \<Rightarrow> t | None \<Rightarrow> []);
          maxTurns = orNum (wf_maxTurns wkf) 30;
          x1 = log H ''mission'' MISSION_NAME Info (MsgMission m) x;
          x2 = log H ''mission'' MISSION_NAME Info (MsgMissionTurns maxTurns) x1;
          (res, x3) = callAgent H ''mission'' MISSION_NAME m maxTurns x2;
          end = dateNow H (world x3)
      in case res of
           Resolved ok result \<Rightarrow>
             (let x4 = log H ''mission'' MISSION_NAME (if ok then Success else Error)
                         (if ok then MsgMissionDone result start end
                          else MsgMissionFailed result) x3
              in (\<lparr>success = ok, workflowId = wf_id wkf, startTime = start, endTime = end,
                   stepsExecuted = 1, lastStepId = Some ''mission'',
                   error = (if ok then None else Some result), res_logs = logs x4\<rparr>, x4))
         | Rejected errorMsg \<Rightarrow>
             (let x4 = log H ''mission'' MISSION_NAME Error (MsgException errorMsg) x3
              in (\<lparr>success = False, workflowId = wf_id wkf, startTime = start, endTime = end,
                   stepsExecuted = 1, lastStepId = Some ''mission'',
                   error = Some errorMsg, res_logs = logs x4\<rparr>, x4)))"

text \<open>
  The \<open>while\<close> loop of lines 241-260 with its four variables; it returns them as they
  are when the loop is left (by its condition or by a \<open>break\<close>).
\<close>

function execute_loop :: "'w host \<Rightarrow> Workflow \<Rightarrow> WorkflowStep option \<Rightarrow> nat \<Rightarrow>
    string option \<Rightarrow> string option \<Rightarrow> 'w executor \<Rightarrow>
    nat \<times> string option \<times> string option \<times> 'w executor" where
  "execute_loop H wkf currentStep n lastId err x =
     (case currentStep of
        None \<Rightarrow> (n, lastId, err, x)
      | Some cur \<Rightarrow>
          if aborted x then (n, lastId, err, x)
          else if n + 1 > 50 then
            (n + 1, Some (step_id cur), Some ERR_LIMIT,
             log H (step_id cur) (step_name cur) Error (MsgText ERR_LIMIT) x)
          else
            (case executeStepWithRetry H cur x of
               (ok, x') \<Rightarrow>
                 if \<not> ok \<and> findNextStep wkf cur ok = None then
                   (n + 1, Some (step_id cur), Some ERR_STEP_FAILED, x')
                 else
                   execute_loop H wkf (findNextStep wkf cur ok) (n + 1)
                     (Some (step_id cur)) err x'))"
  by pat_completeness auto
termination
  by (relation "measure (\<lambda>(H, wkf, currentStep, n, lastId, err, x). 51 - n)") auto

text \<open>The test of line 222: \<open>mission && mission.trim()\<close>.\<close>

definition missionMode :: "Workflow \<Rightarrow> bool" where
  "missionMode wkf =
     (case mission wkf of None \<Rightarrow> False | Some m \<Rightarrow> m \<noteq> [] \<and> trim m \<noteq> [])"

definition execute :: "'w host \<Rightarrow> Workflow \<Rightarrow> 'w executor \<Rightarrow>
    WorkflowExecutionResult \<times> 'w executor" where
  "execute H wkf x =
     (let start = dateNow H (world x);
          x1 = log H ''workflow'' (wf_name wkf) Info (MsgWorkflowStart (wf_name wkf)) x
      in if missionMode wkf then executeMission H wkf x1
         else if length (steps wkf) = 0 then
           (\<lparr>success = False, workflowId = wf_id wkf, startTime = start,
             endTime = dateNow H (world x1), stepsExecuted = 0, lastStepId = None,
             error = Some ERR_EMPTY, res_logs = logs x1\<rparr>, x1)
         else
           (case execute_loop H wkf (Some (steps wkf ! 0)) 0 None None x1 of
              (n, lastId, err, x2) \<Rightarrow>
                (let err' = (if aborted x2 then Some ERR_ABORTED else err);
                     end = dateNow H (world x2);
                     ok = ((err' = None \<or> err' = Some []) \<and> \<not> aborted x2);
                     x3 = log H ''workflow'' (wf_name wkf) (if ok then Success else Error)
                            (if ok then MsgWorkflowDone n start end
                             else MsgWorkflowFailed err') x2
                 in (\<lparr>success = ok, workflowId = wf_id wkf, startTime = start,
                      endTime = end, stepsExecuted = n, lastStepId = lastId,
                      error = err', res_logs = logs x3\<rparr>, x3))))"

declare executeStepWithRetry_loop.simps [simp del]
declare execute_loop.simps [simp del]

section \<open>Workflow store (src/src/workflow/executor.ts, second document, lines 291-458)\<close>

text \<open>
  JSON values. A JSON text is modelled by what \<open>JSON.parse\<close> makes of it: the value it
  denotes (an object's keys are then distinct), or a \<open>SyntaxError\<close>. So
  \<open>JSON.parse (JSON.stringify v)\<close> is \<open>v\<close> by construction, which is the platform's
  behaviour on the values of this type; the indentation asked of \<open>JSON.stringify\<close>
  does not change the value denoted.
\<close>

datatype json =
    JNull
  | JBool bool
  | JNum int
  | JStr string
  | JArr "json list"
  | JObj "(string \<times> json) list"

datatype json_text = Denotes json | Invalid

definition JSON_stringify :: "json \<Rightarrow> json_text" where
  "JSON_stringify v = Denotes v"

text \<open>\<open>None\<close>: \<open>JSON.parse\<close> throws.\<close>

definition JSON_parse :: "json_text \<Rightarrow> json option" where
  "JSON_parse t = (case t of Denotes v \<Rightarrow> Some v | Invalid \<Rightarrow> None)"

text \<open>
  A \<open>Workflow\<close> object as \<open>JSON.stringify\<close> sees it: its properties in the order of
  the interface, a property that is \<open>undefined\<close> left out.
\<close>

definition optional :: "string \<Rightarrow> ('a \<Rightarrow> json) \<Rightarrow> 'a option \<Rightarrow> (string \<times> json) list" where
  "optional k f v = (case v of None \<Rightarrow> [] | Some a \<Rightarrow> [(k, f a)])"

definition stepJSON :: "WorkflowStep \<Rightarrow> json" where
  "stepJSON s = JObj (
     [(''id'', JStr (step_id s)), (''name'', JStr (step_name s)),
      (''prompt'', JStr (prompt s))] @
     optional ''maxTurns'' JNum (step_maxTurns s) @
     [(''onSuccess'', JStr (onSuccess s)), (''onFailure'', JStr (onFailure s))] @
     optional ''retryCount'' JNum (retryCount s))"

definition scheduleJSON :: "Schedule \<Rightarrow> json" where
  "scheduleJSON c = JObj (
     [(''enabled'', JBool (sch_enabled c)), (''type'', JStr (sch_type c))] @
     optional ''intervalMinutes'' JNum (intervalMinutes c) @
     optional ''time'' JStr (time c) @
     optional ''dayOfWeek'' JNum (dayOfWeek c) @
     optional ''lastRun'' JNum (lastRun c) @
     optional ''nextRun'' JNum (nextRun c))"

definition workflowJSON :: "Workflow \<Rightarrow> json" where
  "workflowJSON w = JObj (
     [(''id'', JStr (wf_id w)), (''name'', JStr (wf_name w))] @
     optional ''description'' JStr (description w) @
     [(''enabled'', JBool (wf_enabled w))] @
     optional ''mission'' JStr (mission w) @
     optional ''maxTurns'' JNum (wf_maxTurns w) @
     [(''steps'', JArr (map stepJSON (steps w))),
      (''createdAt'', JNum (createdAt w)), (''updatedAt'', JNum (updatedAt w))] @
     optional ''schedule'' scheduleJSON (schedule w))"

text \<open>
  Property access on a parsed value, for the property names of this module: only an
  object has such a property (\<open>None\<close> is \<open>undefined\<close>). Reading a property of \<open>null\<close>
  throws and is handled where it happens. Assignment replaces the value of a property
  where it stands, or adds the property last.
\<close>

definition getProp :: "json \<Rightarrow> string \<Rightarrow> json option" where
  "getProp v k = (case v of JObj kvs \<Rightarrow> map_of kvs k | _ \<Rightarrow> None)"

definition setProp :: "string \<Rightarrow> json \<Rightarrow> json \<Rightarrow> json" where
  "setProp k x v = (case v of JObj kvs \<Rightarrow> JObj (AList.update k x kvs) | _ \<Rightarrow> v)"

text \<open>The properties an object spread copies.\<close>

definition spread :: "json \<Rightarrow> (string \<times> json) list" where
  "spread v = (case v of JObj kvs \<Rightarrow> kvs | _ \<Rightarrow> [])"

definition truthy :: "json option \<Rightarrow> bool" where
  "truthy v =
     (case v of
        None \<Rightarrow> False
      | Some JNull \<Rightarrow> False
      | Some (JBool b) \<Rightarrow> b
      | Some (JNum n) \<Rightarrow> n \<noteq> 0
      | Some (JStr t) \<Rightarrow> t \<noteq> []
      | Some (JArr xs) \<Rightarrow> True
      | Some (JObj kvs) \<Rightarrow> True)"

definition isArray :: "json option \<Rightarrow> bool" where
  "isArray v = (case v of Some (JArr xs) \<Rightarrow> True | _ \<Rightarrow> False)"

text \<open>Decimal digits of a number, as a template literal prints an integer.\<close>

fun digits :: "nat \<Rightarrow> string" where
  "digits n =
     (if n < 10 then [''0123456789'' ! n]
      else digits (n div 10) @ [''0123456789'' ! (n mod 10)])"

definition decimal :: "int \<Rightarrow> string" where
  "decimal i = (if i < 0 then CHR ''-'' # digits (nat (- i)) else digits (nat i))"

text \<open>
  \<open>generateWorkflowId\<close>, given its reading of the clock and the text
  \<open>Math.random().toString(36).substr(2, 9)\<close>.
\<close>

definition generateWorkflowId :: "int \<Rightarrow> string \<Rightarrow> string" where
  "generateWorkflowId t r = ''wf-'' @ decimal t @ ''-'' @ r"

definition createWorkflow :: "int \<Rightarrow> string \<Rightarrow> string \<Rightarrow> string option \<Rightarrow> Workflow" where
  "createWorkflow now newId nm descr =
     \<lparr>wf_id = newId, wf_name = nm, description = descr, wf_enabled = True, mission = None,
      wf_maxTurns = None, steps = [], createdAt = now, updatedAt = now, schedule = None\<rparr>"

definition COPY_SUFFIX :: string where \<comment> \<open>line 422: " (copy)" in Korean\<close>
  "COPY_SUFFIX = [CHR 0x20, CHR 0x28, CHR 0xEB, CHR 0xB3, CHR 0xB5, CHR 0xEC, CHR 0x82,
     CHR 0xAC, CHR 0xEB, CHR 0xB3, CHR 0xB8, CHR 0x29]"

text \<open>
  In the three functions below \<open>now\<close> is the \<open>Date.now()\<close> of the function and \<open>newId\<close>
  what its call of \<open>generateWorkflowId()\<close> returns. The result is the object returned
  (which the source types as \<open>Workflow\<close> by a cast); \<open>None\<close> is \<open>null\<close> for
  \<open>importWorkflow\<close> and a thrown error for \<open>duplicateWorkflow\<close>.
\<close>

definition duplicateWorkflow :: "int \<Rightarrow> string \<Rightarrow> Workflow \<Rightarrow> json option" where
  "duplicateWorkflow now newId workflow =
     (case JSON_parse (JSON_stringify (workflowJSON workflow)) of
        None \<Rightarrow> None
      | Some clone \<Rightarrow>
          Some (JObj
            (AList.update ''updatedAt'' (JNum now)
              (AList.update ''createdAt'' (JNum now)
                (AList.update ''name'' (JStr (wf_name workflow @ COPY_SUFFIX))
                  (AList.update ''id'' (JStr newId) (spread clone)))))))"

definition exportWorkflow :: "Workflow \<Rightarrow> json_text" where
  "exportWorkflow workflow = JSON_stringify (workflowJSON workflow)"

definition importWorkflow :: "int \<Rightarrow> string \<Rightarrow> json_text \<Rightarrow> json option" where
  "importWorkflow now newId jsonStr =
     (case JSON_parse jsonStr of
        None \<Rightarrow> None
      | Some JNull \<Rightarrow> None
      | Some workflow \<Rightarrow>
          if \<not> truthy (getProp workflow ''name'') \<or> \<not> isArray (getProp workflow ''steps'')
          then None
          else Some (setProp ''updatedAt'' (JNum now)
                      (setProp ''createdAt'' (JNum now)
                        (setProp ''id'' (JStr newId) workflow))))"

section \<open>Scheduler (src/unnamed/part_000)\<close>

text \<open>
  \<open>Date\<close>, as ECMAScript defines it. An instant is its epoch milliseconds. The host's
  time zone is a parameter: \<open>offsetAt z t\<close> is local time minus UTC at the instant \<open>t\<close>
  (\<open>LocalTZA(t, true)\<close>) and \<open>offsetOf z t\<close> the same for the local reading \<open>t\<close>
  (\<open>LocalTZA(t, false)\<close>), so daylight saving is whatever the zone says. A time value
  that \<open>TimeClip\<close> refuses is \<open>None\<close> (\<open>NaN\<close>, an invalid \<open>Date\<close>). The sums and
  products of \<open>MakeTime\<close>, \<open>MakeDate\<close>, \<open>LocalTime\<close> and \<open>UTC\<close> are those of the
  integers.
\<close>

record zone =
  offsetAt :: "int \<Rightarrow> int"
  offsetOf :: "int \<Rightarrow> int"

definition msPerDay :: int where
  "msPerDay = 86400000"

definition LocalTime :: "zone \<Rightarrow> int \<Rightarrow> int" where
  "LocalTime z t = t + offsetAt z t"

definition UTC :: "zone \<Rightarrow> int \<Rightarrow> int" where
  "UTC z t = t - offsetOf z t"

definition Day :: "int \<Rightarrow> int" where
  "Day t = t div msPerDay"

definition WeekDay :: "int \<Rightarrow> int" where
  "WeekDay t = (Day t + 4) mod 7"

definition TimeClip :: "int \<Rightarrow> int option" where
  "TimeClip t = (if \<bar>t\<bar> \<le> 8640000000000000 then Some t else None)"

text \<open>
  \<open>setHours(h, m, 0, 0)\<close> on a valid \<open>Date\<close> of time value \<open>t\<close>, with finite \<open>h\<close> and
  \<open>m\<close>: \<open>TimeClip(UTC(MakeDate(Day(LocalTime(t)), MakeTime(h, m, 0, 0))))\<close>.
\<close>

definition setHours :: "zone \<Rightarrow> int \<Rightarrow> int \<Rightarrow> int \<Rightarrow> int option" where
  "setHours z t h m =
     TimeClip (UTC z (Day (LocalTime z t) * msPerDay + (h * 3600000 + m * 60000)))"

definition getDay :: "zone \<Rightarrow> int \<Rightarrow> int" where
  "getDay z t = WeekDay (LocalTime z t)"

text \<open>
  \<open>setDate(getDate() + k)\<close> on a valid \<open>Date\<close> of time value \<open>t\<close>: \<open>MakeDay\<close> of the
  year, the month and the day of the month plus \<open>k\<close> is \<open>Day(LocalTime(t)) + k\<close>, and
  the time within the day is kept, so the new local reading is \<open>LocalTime(t)\<close> plus
  \<open>k\<close> days; it goes through \<open>UTC\<close> and \<open>TimeClip\<close> also when \<open>k\<close> is 0.
\<close>

definition addDays :: "zone \<Rightarrow> int \<Rightarrow> int \<Rightarrow> int option" where
  "addDays z t k = TimeClip (UTC z (LocalTime z t + k * msPerDay))"

text \<open>\<open>String.prototype.split\<close> with a separator of one character.\<close>

fun split :: "char \<Rightarrow> string \<Rightarrow> string list" where
  "split c [] = [[]]"
| "split c (x # xs) =
     (if x = c then [] # split c xs
      else (case split c xs of [] \<Rightarrow> [[x]] | p # ps \<Rightarrow> (x # p) # ps))"

text \<open>
  \<open>Number\<close> on a string (\<open>StringToNumber\<close>): white space around the literal is
  dropped and the empty string is 0; the literal is \<open>0x\<close>, \<open>0o\<close> or \<open>0b\<close> followed by
  digits of that radix, or, with an optional sign, \<open>Infinity\<close> or decimal digits with an
  optional fraction and an optional exponent; anything else is \<open>NaN\<close>. The result is
  the double nearest to the value of the literal, a tie going to the even significand,
  and an infinity beyond the largest double. A finite double is \<open>Finite n g\<close>, for \<open>n\<close>
  times 2 to the power \<open>g\<close>.
\<close>

datatype number = Finite int int | PlusInfinity | MinusInfinity | NotANumber

text \<open>The number of binary digits of a positive integer.\<close>

function bits :: "int \<Rightarrow> nat" where
  "bits n = (if n \<le> 0 then 0 else Suc (bits (n div 2)))"
  by pat_completeness auto
termination
  by (relation "measure nat") auto

text \<open>
  For positive \<open>p\<close> and \<open>q\<close>: the exponent \<open>e\<close> with \<open>p / q\<close> from 2 to the power \<open>e\<close>
  up to, but not including, 2 to the power \<open>e + 1\<close>.
\<close>

definition binade :: "int \<Rightarrow> int \<Rightarrow> int" where
  "binade p q =
     (let k = int (bits p) - int (bits q)
      in if (if 0 \<le> k then q * 2 ^ nat k \<le> p else q \<le> p * 2 ^ nat (- k)) then k else k - 1)"

text \<open>The integer nearest to \<open>p / q\<close>, for \<open>0 \<le> p\<close> and \<open>0 < q\<close>; a tie goes to the even one.\<close>

definition roundHalfEven :: "int \<Rightarrow> int \<Rightarrow> int" where
  "roundHalfEven p q =
     (let f = p div q; r = p mod q
      in if 2 * r < q then f
         else if q < 2 * r then f + 1
         else if even f then f else f + 1)"

text \<open>
  The double nearest to \<open>p / q\<close>, for \<open>0 \<le> p\<close> and \<open>0 < q\<close>: a significand of 53
  binary digits, of fewer below 2 to the power -1022, and an infinity from 2 to the
  power 1024 on.
\<close>

definition nearestDouble :: "int \<Rightarrow> int \<Rightarrow> number" where
  "nearestDouble p q =
     (if p = 0 then Finite 0 0
      else
        (let g = max (binade p q) (- 1022) - 52;
             n = (if 0 \<le> g then roundHalfEven p (q * 2 ^ nat g)
                  else roundHalfEven (p * 2 ^ nat (- g)) q)
         in if 0 \<le> g \<and> 2 ^ 1024 \<le> n * 2 ^ nat g then PlusInfinity else Finite n g))"

text \<open>The double nearest to \<open>m\<close> times 10 to the power \<open>e\<close>, for \<open>0 \<le> m\<close>.\<close>

definition decimalValue :: "int \<Rightarrow> int \<Rightarrow> number" where
  "decimalValue m e =
     (if 0 \<le> e then nearestDouble (m * 10 ^ nat e) 1 else nearestDouble m (10 ^ nat (- e)))"

definition isDigit :: "char \<Rightarrow> bool" where
  "isDigit c = (48 \<le> (of_char c :: nat) \<and> (of_char c :: nat) \<le> 57)"

definition isHexDigit :: "char \<Rightarrow> bool" where
  "isHexDigit c =
     (isDigit c \<or> (65 \<le> (of_char c :: nat) \<and> (of_char c :: nat) \<le> 70) \<or>
      (97 \<le> (of_char c :: nat) \<and> (of_char c :: nat) \<le> 102))"

definition isOctalDigit :: "char \<Rightarrow> bool" where
  "isOctalDigit c = (48 \<le> (of_char c :: nat) \<and> (of_char c :: nat) \<le> 55)"

definition isBinaryDigit :: "char \<Rightarrow> bool" where
  "isBinaryDigit c = (c = CHR ''0'' \<or> c = CHR ''1'')"

definition digitValue :: "char \<Rightarrow> int" where
  "digitValue c =
     (if isDigit c then int (of_char c) - 48
      else if 97 \<le> (of_char c :: nat) then int (of_char c) - 87
      else int (of_char c) - 55)"

definition radixValue :: "int \<Rightarrow> string \<Rightarrow> int" where
  "radixValue b s = foldl (\<lambda>a c. b * a + digitValue c) 0 s"

text \<open>\<open>SignedInteger\<close> of an exponent part; \<open>None\<close> when the text is not one.\<close>

definition signedInteger :: "string \<Rightarrow> int option" where
  "signedInteger s =
     (let ds = (case s of c # r \<Rightarrow> if c = CHR ''+'' \<or> c = CHR ''-'' then r else s | [] \<Rightarrow> s)
      in if ds = [] \<or> \<not> list_all isDigit ds then None
         else Some (case s of c # r \<Rightarrow> if c = CHR ''-'' then - radixValue 10 ds
                                          else radixValue 10 ds
                          | [] \<Rightarrow> 0))"

definition notE :: "char \<Rightarrow> bool" where
  "notE c = (c \<noteq> CHR ''e'' \<and> c \<noteq> CHR ''E'')"

definition notDot :: "char \<Rightarrow> bool" where
  "notDot c = (c \<noteq> CHR ''.'')"

text \<open>
  \<open>StrUnsignedDecimalLiteral\<close>: the text up to the first \<open>e\<close> or \<open>E\<close> is the mantissa,
  digits with at most one point and at least one digit; what follows the \<open>e\<close> is the
  exponent.
\<close>

definition unsignedDecimal :: "string \<Rightarrow> number" where
  "unsignedDecimal u =
     (if u = ''Infinity'' then PlusInfinity
      else
        (let mantissa = takeWhile notE u;
             exponentPart = dropWhile notE u;
             whole = takeWhile notDot mantissa;
             point = dropWhile notDot mantissa;
             fraction = (case point of [] \<Rightarrow> [] | c # r \<Rightarrow> r)
         in if \<not> list_all isDigit whole \<or> \<not> list_all isDigit fraction \<or>
               (whole = [] \<and> fraction = [])
            then NotANumber
            else
              (case exponentPart of
                 [] \<Rightarrow> decimalValue (radixValue 10 (whole @ fraction)) (- int (length fraction))
               | c # r \<Rightarrow>
                   (case signedInteger r of
                      None \<Rightarrow> NotANumber
                    | Some e \<Rightarrow>
                        decimalValue (radixValue 10 (whole @ fraction))
                          (e - int (length fraction))))))"

definition negate :: "number \<Rightarrow> number" where
  "negate n =
     (case n of
        Finite m g \<Rightarrow> Finite (- m) g
      | PlusInfinity \<Rightarrow> MinusInfinity
      | MinusInfinity \<Rightarrow> PlusInfinity
      | NotANumber \<Rightarrow> NotANumber)"

definition radixLiteral :: "(char \<Rightarrow> bool) \<Rightarrow> int \<Rightarrow> string \<Rightarrow> number" where
  "radixLiteral ok b ds =
     (if ds \<noteq> [] \<and> list_all ok ds then nearestDouble (radixValue b ds) 1 else NotANumber)"

definition Number :: "string \<Rightarrow> number" where
  "Number s =
     (let t = trim s in
      if t = [] then Finite 0 0
      else if take 2 t = ''0x'' \<or> take 2 t = ''0X'' then radixLiteral isHexDigit 16 (drop 2 t)
      else if take 2 t = ''0o'' \<or> take 2 t = ''0O'' then radixLiteral isOctalDigit 8 (drop 2 t)
      else if take 2 t = ''0b'' \<or> take 2 t = ''0B'' then radixLiteral isBinaryDigit 2 (drop 2 t)
      else if hd t = CHR ''+'' then unsignedDecimal (tl t)
      else if hd t = CHR ''-'' then negate (unsignedDecimal (tl t))
      else unsignedDecimal t)"

text \<open>
  \<open>ToIntegerOrInfinity\<close> as \<open>MakeTime\<close> applies it to a finite number: the fraction is
  cut off towards zero. \<open>None\<close>: the number is \<open>NaN\<close> or infinite, and \<open>MakeTime\<close>
  gives \<open>NaN\<close>.
\<close>

definition toInteger :: "number \<Rightarrow> int option" where
  "toInteger n =
     (case n of
        Finite m g \<Rightarrow>
          Some (if 0 \<le> g then m * 2 ^ nat g
                else if 0 \<le> m then m div 2 ^ nat (- g)
                else - ((- m) div 2 ^ nat (- g)))
      | _ \<Rightarrow> None)"

text \<open>
  Lines 33 and 43: \<open>(schedule.time || "09:00").split(":").map(Number)\<close>, of which the
  first two elements go to \<open>setHours\<close>. The result is the hour and the minute as
  \<open>MakeTime\<close> takes them, or \<open>None\<close> when one of them is not finite (a missing second
  element is \<open>undefined\<close>, which is \<open>NaN\<close> to \<open>setHours\<close>): the \<open>Date\<close> is then invalid.
\<close>

definition parseTime :: "string option \<Rightarrow> (int \<times> int) option" where
  "parseTime t =
     (case split CHR '':'' (case t of None \<Rightarrow> ''09:00'' | Some s \<Rightarrow> if s = [] then ''09:00'' else s) of
        h # m # rest \<Rightarrow>
          (case (toInteger (Number h), toInteger (Number m)) of
             (Some hours, Some minutes) \<Rightarrow> Some (hours, minutes)
           | _ \<Rightarrow> None)
      | _ \<Rightarrow> None)"

datatype num = Num int | NaN

text \<open>
  \<open>calculateNextRun\<close> in the zone \<open>z\<close>: \<open>now\<close> is the \<open>Date.now()\<close> of line 23 and
  \<open>today\<close> the instant of the \<open>new Date()\<close> of lines 34 and 45. \<open>None\<close> is \<open>null\<close>.
  On an invalid \<open>Date\<close> every comparison is false and every operation gives \<open>NaN\<close>,
  which is then what is returned.
\<close>

definition calculateNextRun :: "zone \<Rightarrow> int \<Rightarrow> int \<Rightarrow> Workflow \<Rightarrow> num option" where
  "calculateNextRun z now today workflow =
     (case schedule workflow of
        None \<Rightarrow> None
      | Some sch \<Rightarrow>
          if \<not> sch_enabled sch then None
          else if sch_type sch = ''interval'' then
            (let intervalMs = orNum (intervalMinutes sch) 60 * 60 * 1000
             in Some (Num (orNum (lastRun sch) 0 + intervalMs)))
          else if sch_type sch = ''daily'' then
            (case parseTime (time sch) of
               None \<Rightarrow> Some NaN
             | Some (hours, minutes) \<Rightarrow>
                 (case setHours z today hours minutes of
                    None \<Rightarrow> Some NaN
                  | Some next \<Rightarrow>
                      if next \<le> now then
                        (case addDays z next 1 of
                           None \<Rightarrow> Some NaN
                         | Some rolled \<Rightarrow> Some (Num rolled))
                      else Some (Num next)))
          else if sch_type sch = ''weekly'' then
            (case parseTime (time sch) of
               None \<Rightarrow> Some NaN
             | Some (hours, minutes) \<Rightarrow>
                 (let targetDay = (case dayOfWeek sch of None \<Rightarrow> 1 | Some d \<Rightarrow> d) in
                  case setHours z today hours minutes of
                    None \<Rightarrow> Some NaN
                  | Some next \<Rightarrow>
                      (let currentDay = getDay z next;
                           daysUntil = targetDay - currentDay
                       in case addDays z next
                                 (if daysUntil < 0 \<or> (daysUntil = 0 \<and> next \<le> now)
                                  then daysUntil + 7 else daysUntil) of
                            None \<Rightarrow> Some NaN
                          | Some moved \<Rightarrow> Some (Num moved))))
          else None)"

text \<open>\<open>calculateNextRun(workflow) || undefined\<close>: \<open>null\<close>, \<open>NaN\<close> and \<open>0\<close> are falsy.\<close>

definition orUndefined :: "num option \<Rightarrow> int option" where
  "orUndefined r =
     (case r of
        None \<Rightarrow> None
      | Some NaN \<Rightarrow> None
      | Some (Num n) \<Rightarrow> if n = 0 then None else Some n)"

text \<open>
  What the scheduler works on. \<open>files\<close> is the directory of the store: the id in each
  file name, and what \<open>JSON.parse\<close> makes of the content, seen as a \<open>Workflow\<close> as the
  cast of \<open>loadWorkflows\<close> does (\<open>None\<close>: the content does not parse, and the file is
  skipped). \<open>clock\<close> is what \<open>Date.now()\<close> answers, \<open>said\<close> what was given to
  \<open>onLog\<close> so far, \<open>host\<close> the rest of the host. Reading and writing a file, and
  \<open>onLog\<close>, are taken not to fail.
\<close>

datatype sched_message =
    SchedRun string                  \<comment> \<open>line 83, \<open>workflow.name\<close>\<close>
  | SchedDone string "int option"    \<comment> \<open>line 93, \<open>workflow.name\<close> and \<open>nextRun\<close>\<close>
  | SchedError string string         \<comment> \<open>line 95, \<open>workflow.name\<close> and the error's message\<close>

record 'h world =
  files :: "(string \<times> Workflow option) list"
  clock :: int
  said :: "sched_message list"
  host :: 'h

text \<open>
  \<open>onWorkflowRun\<close> is the host's: it answers \<open>None\<close> when its promise resolves and the
  message of the error when it rejects, and leaves the world as it likes.
\<close>

record 'h SchedulerCallbacks =
  onWorkflowRun :: "Workflow \<Rightarrow> 'h world \<Rightarrow> string option \<times> 'h world"

definition onLog :: "sched_message \<Rightarrow> 'h world \<Rightarrow> 'h world" where
  "onLog m s = s\<lparr>said := said s @ [m]\<rparr>"

text \<open>
  \<open>loadWorkflows\<close> (lines 328-346): the files that parse, newest \<open>updatedAt\<close> first;
  the sort is stable.
\<close>

definition loadWorkflows :: "'h world \<Rightarrow> Workflow list" where
  "loadWorkflows s =
     sort_key (\<lambda>w. - updatedAt w) (concat (map (\<lambda>(k, c). case c of None \<Rightarrow> [] | Some w \<Rightarrow> [w]) (files s)))"

text \<open>
  \<open>saveWorkflow\<close> (lines 370-377) stamps \<open>updatedAt\<close> on the object it is given and
  writes the file named by its id; it returns the object as it is afterwards.
\<close>

definition saveWorkflow :: "Workflow \<Rightarrow> 'h world \<Rightarrow> Workflow \<times> 'h world" where
  "saveWorkflow workflow s =
     (let w = workflow\<lparr>updatedAt := clock s\<rparr>
      in (w, s\<lparr>files := AList.update (wf_id w) (Some w) (files s)\<rparr>))"

text \<open>
  The body of the loop of \<open>checkSchedules\<close> (lines 72-97) for one workflow; \<open>now\<close> is
  the \<open>Date.now()\<close> of line 69. It returns the workflow object as the body leaves it.
  A \<open>nextRun\<close> that is \<open>undefined\<close> or \<open>0\<close> is falsy (line 75).
\<close>

definition checkWorkflow :: "'h SchedulerCallbacks \<Rightarrow> zone \<Rightarrow> int \<Rightarrow> Workflow \<Rightarrow> 'h world \<Rightarrow>
    Workflow \<times> 'h world" where
  "checkWorkflow callbacks tz now workflow s =
     (case schedule workflow of
        None \<Rightarrow> (workflow, s)
      | Some sch \<Rightarrow>
          if \<not> sch_enabled sch \<or> \<not> wf_enabled workflow then (workflow, s)
          else
            (case (if nextRun sch = Some 0 then None else nextRun sch) of
               None \<Rightarrow>
                 saveWorkflow
                   (workflow\<lparr>schedule := Some (sch\<lparr>nextRun :=
                      orUndefined (calculateNextRun tz (clock s) (clock s) workflow)\<rparr>)\<rparr>) s
             | Some next_run \<Rightarrow>
                 if next_run \<le> now then
                   (case onWorkflowRun callbacks workflow
                           (onLog (SchedRun (wf_name workflow)) s) of
                      (None, s') \<Rightarrow>
                        (let ran = workflow\<lparr>schedule := Some (sch\<lparr>lastRun := Some now\<rparr>)\<rparr>;
                             next = orUndefined (calculateNextRun tz (clock s') (clock s') ran);
                             (saved, s'') =
                               saveWorkflow
                                 (ran\<lparr>schedule :=
                                    Some (sch\<lparr>lastRun := Some now, nextRun := next\<rparr>)\<rparr>) s'
                         in (saved, onLog (SchedDone (wf_name workflow) next) s''))
                    | (Some msg, s') \<Rightarrow>
                        (workflow, onLog (SchedError (wf_name workflow) msg) s'))
                 else (workflow, s)))"

fun checkEach :: "'h SchedulerCallbacks \<Rightarrow> zone \<Rightarrow> int \<Rightarrow> Workflow list \<Rightarrow> 'h world \<Rightarrow> 'h world" where
  "checkEach callbacks tz now [] s = s"
| "checkEach callbacks tz now (workflow # rest) s =
     checkEach callbacks tz now rest (snd (checkWorkflow callbacks tz now workflow s))"

text \<open>\<open>checkSchedules\<close>; \<open>callbacks\<close> is \<open>None\<close> when the scheduler is stopped.\<close>

definition checkSchedules :: "'h SchedulerCallbacks option \<Rightarrow> zone \<Rightarrow> 'h world \<Rightarrow> 'h world" where
  "checkSchedules callbacks tz s =
     (case callbacks of
        None \<Rightarrow> s
      | Some cb \<Rightarrow> checkEach cb tz (clock s) (loadWorkflows s) s)"

definition getNextRunTime :: "zone \<Rightarrow> int \<Rightarrow> int \<Rightarrow> Workflow \<Rightarrow> int option" where
  "getNextRunTime tz now today workflow = orUndefined (calculateNextRun tz now today workflow)"

section \<open>Vocabulary of the statements\<close>

text \<open>
  Due (glossary): a scheduled workflow whose \<open>nextRun\<close> is at or before the current
  tick time; the scheduler looks only at enabled workflows with an enabled schedule.
\<close>

definition due :: "int \<Rightarrow> Workflow \<Rightarrow> bool" where
  "due now w =
     (case schedule w of
        None \<Rightarrow> False
      | Some sch \<Rightarrow>
          sch_enabled sch \<and> wf_enabled w \<and>
          (case nextRun sch of None \<Rightarrow> False | Some n \<Rightarrow> n \<noteq> 0 \<and> n \<le> now))"



text \<open>An agent call counts as a success when it resolves with \<open>success = true\<close> (lines 81, 171).\<close>

definition succeeded :: "agent_run \<Rightarrow> bool" where
  "succeeded r = (case outcome r of Resolved ok result \<Rightarrow> ok | Rejected m \<Rightarrow> False)"

text \<open>
  The events of the attempts on one step, given what each agent call came to: the
  first call, and for every further call the one-second timer followed by the call.
\<close>

definition retried :: "WorkflowStep \<Rightarrow> agent_run list \<Rightarrow> event list" where
  "retried step rs =
     concat (map (\<lambda>r. [Timeout 1000,
        AgentCall (prompt step) (orNum (step_maxTurns step) DEFAULT_MAX_TURNS) r]) rs)"

definition attempts :: "WorkflowStep \<Rightarrow> agent_run list \<Rightarrow> event list" where
  "attempts step rs =
     (case rs of
        [] \<Rightarrow> []
      | r # rs' \<Rightarrow>
          AgentCall (prompt step) (orNum (step_maxTurns step) DEFAULT_MAX_TURNS) r #
          retried step rs')"

text \<open>
  Two steps that are the same, or differ only in that the first has
  \<open>onFailure = "retry"\<close> where the second has \<open>onFailure = "end"\<close>.
\<close>

definition sentinelSwap :: "WorkflowStep \<Rightarrow> WorkflowStep \<Rightarrow> bool" where
  "sentinelSwap a b = (b = a \<or> (onFailure a = ''retry'' \<and> b = a\<lparr>onFailure := ''end''\<rparr>))"

text \<open>
  The local day of an instant (days since the epoch, in local time); local day \<open>d\<close>
  at \<open>h:m\<close> as an instant, which is what \<open>UTC\<close> makes of that local reading; and the
  day of the week of local day \<open>d\<close> (0 is Sunday; day 0 was a Thursday).
\<close>

definition localDay :: "zone \<Rightarrow> int \<Rightarrow> int" where
  "localDay z t = Day (LocalTime z t)"

definition atTime :: "zone \<Rightarrow> int \<Rightarrow> int \<Rightarrow> int \<Rightarrow> int" where
  "atTime z d h m = UTC z (d * msPerDay + (h * 3600000 + m * 60000))"

definition weekday :: "int \<Rightarrow> int" where
  "weekday d = (d + 4) mod 7"

text \<open>
  The local reading \<open>h:m\<close> of local day \<open>d\<close> exists when the instant \<open>UTC\<close> gives for
  it reads \<open>h:m\<close> of day \<open>d\<close> again; it does not where a daylight-saving change skips
  it.
\<close>

definition readable :: "zone \<Rightarrow> int \<Rightarrow> int \<Rightarrow> int \<Rightarrow> bool" where
  "readable z d h m =
     (LocalTime z (atTime z d h m) = d * msPerDay + (h * 3600000 + m * 60000))"

text \<open>
  At the instant \<open>t\<close>, every local reading of a later local day than that of \<open>t\<close>
  denotes an instant after \<open>t\<close>.
\<close>

definition laterDays :: "zone \<Rightarrow> int \<Rightarrow> bool" where
  "laterDays z t = (\<forall>L. (localDay z t + 1) * msPerDay \<le> L \<longrightarrow> t < UTC z L)"

section \<open>Sample inputs\<close>

text \<open>
  A host that replays a script of agent runs (and answers with a success once the
  script is used up), whose timer never sees an abort and whose clock stands still.
\<close>

definition okRun :: agent_run where
  "okRun = \<lparr>progress = [], outcome = Resolved True ''done'', abortCalled = False\<rparr>"

definition failRun :: agent_run where
  "failRun = \<lparr>progress = [], outcome = Resolved False ''no'', abortCalled = False\<rparr>"

definition abortRun :: agent_run where
  "abortRun = \<lparr>progress = [], outcome = Resolved True ''done'', abortCalled = True\<rparr>"

definition scriptHost :: "agent_run list host" where
  "scriptHost =
     \<lparr>runStepAgent = (\<lambda>p t w. case w of [] \<Rightarrow> (okRun, []) | r # rs \<Rightarrow> (r, rs)),
      setTimeout = (\<lambda>ms w. (False, w)),
      dateNow = (\<lambda>w. 0)\<rparr>"

text \<open>The same host, but \<open>abort()\<close> is called during every wait on the timer.\<close>

definition timerAbortHost :: "agent_run list host" where
  "timerAbortHost = scriptHost\<lparr>setTimeout := (\<lambda>ms w. (True, w))\<rparr>"

text \<open>The constructor (lines 29-37): not aborted, no logs.\<close>

definition newExecutor :: "'w \<Rightarrow> 'w executor" where
  "newExecutor w = \<lparr>aborted = False, logs = [], events = [], world = w\<rparr>"

definition stepA :: WorkflowStep where
  "stepA = \<lparr>step_id = ''a'', step_name = ''A'', prompt = ''open'', step_maxTurns = None,
            onSuccess = ''next'', onFailure = ''retry'', retryCount = Some 1\<rparr>"

definition stepB :: WorkflowStep where
  "stepB = \<lparr>step_id = ''b'', step_name = ''B'', prompt = ''read'', step_maxTurns = Some 5,
            onSuccess = ''end'', onFailure = ''end'', retryCount = None\<rparr>"

definition stepLoop :: WorkflowStep where
  "stepLoop = \<lparr>step_id = ''a'', step_name = ''A'', prompt = ''open'', step_maxTurns = None,
               onSuccess = ''a'', onFailure = ''end'', retryCount = None\<rparr>"

definition workflowOf :: "WorkflowStep list \<Rightarrow> Workflow" where
  "workflowOf ss =
     \<lparr>wf_id = ''wf-1'', wf_name = ''demo'', description = None, wf_enabled = True,
      mission = None, wf_maxTurns = None, steps = ss, createdAt = 1, updatedAt = 2,
      schedule = None\<rparr>"

text \<open>
  Two zones: UTC, and New York in 2024 (five hours behind UTC, four from 10 March 07:00
  UTC to 3 November 06:00 UTC; a local reading is taken with the offset before the
  change when it is skipped or repeated).
\<close>

definition utcZone :: zone where
  "utcZone = \<lparr>offsetAt = (\<lambda>t. 0), offsetOf = (\<lambda>t. 0)\<rparr>"

definition newYork :: zone where
  "newYork =
     \<lparr>offsetAt = (\<lambda>t. if 1710054000000 \<le> t \<and> t < 1730613600000 then - 14400000 else - 18000000),
      offsetOf = (\<lambda>t. if 1710039600000 \<le> t \<and> t < 1730599200000 then - 14400000 else - 18000000)\<rparr>"

text \<open>
  Schedules: every hour, due at any tick from 1000 on; weekly on Mondays and daily, at
  09:00; daily at other times, one of them no time at all; a workflow with the first
  schedule and a store holding it; and hosts whose run callback always rejects, or
  always resolves after 30 ms, counting the calls in \<open>host\<close>.
\<close>

definition everyHour :: Schedule where
  "everyHour = \<lparr>sch_enabled = True, sch_type = ''interval'', intervalMinutes = Some 60,
     time = None, dayOfWeek = None, lastRun = None, nextRun = Some 1000\<rparr>"



definition mornings :: Schedule where
  "mornings = \<lparr>sch_enabled = True, sch_type = ''daily'', intervalMinutes = None,
     time = Some ''09:00'', dayOfWeek = None, lastRun = None, nextRun = None\<rparr>"

definition nights :: Schedule where
  "nights = mornings\<lparr>time := Some ''02:30''\<rparr>"

definition faraway :: Schedule where
  "faraway = mornings\<lparr>time := Some ''9999999999:00''\<rparr>"


definition hourly :: Workflow where
  "hourly = (workflowOf [stepA])\<lparr>schedule := Some everyHour\<rparr>"

definition failing :: "nat SchedulerCallbacks" where
  "failing = \<lparr>onWorkflowRun = (\<lambda>w s. (Some ''boom'', s\<lparr>host := host s + 1\<rparr>))\<rparr>"

definition succeeding :: "nat SchedulerCallbacks" where
  "succeeding =
     \<lparr>onWorkflowRun = (\<lambda>w s. (None, s\<lparr>host := host s + 1, clock := clock s + 30\<rparr>))\<rparr>"

definition world0 :: "nat world" where
  "world0 = \<lparr>files = [(''wf-1'', Some hourly)], clock = 5000, said = [], host = 0\<rparr>"

section \<open>Properties of the executor\<close>

lemmas sample_defs =
  okRun_def failRun_def abortRun_def scriptHost_def newExecutor_def stepA_def stepB_def
  stepLoop_def workflowOf_def

lemmas executor_defs =
  executeStepWithRetry_def executeStep_def callAgent_def delay_def log_def orNum_def
  DEFAULT_MAX_TURNS_def

lemma log_fields [simp]:
  "aborted (log H a b c d x) = aborted x"
  "events (log H a b c d x) = events x"
  "world (log H a b c d x) = world x"
  by (simp_all add: log_def)

lemma delay_fields:
  "events (delay H ms x) = events x @ [Timeout ms]"
  "aborted x \<Longrightarrow> aborted (delay H ms x)"
  by (simp_all add: delay_def split: prod.splits)

subsection \<open>findNextStep\<close>

lemma findIndex_distinct:
  "distinct (map f xs) \<Longrightarrow> i < length xs \<Longrightarrow> findIndex (\<lambda>s. f s = f (xs ! i)) xs = Some i"
proof (induction xs arbitrary: i)
  case Nil
  then show ?case by simp
next
  case (Cons a xs)
  show ?case
  proof (cases i)
    case 0
    then show ?thesis by simp
  next
    case (Suc j)
    with Cons.prems have "j < length xs" "f a \<noteq> f (xs ! j)" by auto
    with Cons Suc show ?thesis by auto
  qed
qed

lemma findIndex_None_iff: "findIndex P xs = None \<longleftrightarrow> (\<forall>x\<in>set xs. \<not> P x)"
  by (induction xs) auto

lemma find_distinct_iff:
  "distinct (map f xs) \<Longrightarrow> find (\<lambda>s. f s = r) xs = Some t \<longleftrightarrow> t \<in> set xs \<and> f t = r"
  by (induction xs) (auto simp: rev_image_eqI)

text \<open>
  C4. In a workflow whose step ids are distinct (the data model's invariant), take the
  step at position \<open>i\<close> of \<open>steps\<close> and the branch reference selected by the outcome
  (\<open>onSuccess\<close> on success, \<open>onFailure\<close> on failure). \<open>"end"\<close> and \<open>"retry"\<close> give no
  next step; \<open>"next"\<close> gives the step at position \<open>i + 1\<close>, or none when \<open>i\<close> is the
  last position; any other reference gives the step of \<open>steps\<close> with that id, and none
  when no step has it. For a step whose id is not in \<open>steps\<close> at all, \<open>"next"\<close> gives
  no next step.
\<close>

theorem findNextStep_resolution:
  assumes "i < length (steps wkf)" and "distinct (map step_id (steps wkf))"
  shows "let step = steps wkf ! i;
             ref = (if ok then onSuccess step else onFailure step) in
           (ref = ''end'' \<or> ref = ''retry'' \<longrightarrow> findNextStep wkf step ok = None) \<and>
           (ref = ''next'' \<longrightarrow>
              findNextStep wkf step ok =
                (if i + 1 < length (steps wkf) then Some (steps wkf ! (i + 1)) else None)) \<and>
           (ref \<noteq> ''end'' \<and> ref \<noteq> ''retry'' \<and> ref \<noteq> ''next'' \<longrightarrow>
              (\<forall>t. findNextStep wkf step ok = Some t \<longleftrightarrow>
                     t \<in> set (steps wkf) \<and> step_id t = ref)) \<and>
           (\<forall>other. step_id other \<notin> step_id ` set (steps wkf) \<and>
                (if ok then onSuccess other else onFailure other) = ''next'' \<longrightarrow>
                findNextStep wkf other ok = None)"
proof -
  have "findNextStep wkf other ok = None"
    if "step_id other \<notin> step_id ` set (steps wkf)"
      and "(if ok then onSuccess other else onFailure other) = ''next''" for other
  proof -
    from that(1) have "findIndex (\<lambda>s. step_id s = step_id other) (steps wkf) = None"
      by (auto simp: findIndex_None_iff image_iff)
    with that(2) show ?thesis
      by (simp add: findNextStep_def)
  qed
  with assms show ?thesis
    by (auto simp: findNextStep_def Let_def findIndex_distinct find_distinct_iff)
qed

theorem findNextStep_resolution_witness:
  "findNextStep (workflowOf [stepA, stepB]) stepA True = Some stepB \<and>
   findNextStep (workflowOf [stepA, stepB]) stepA False = None \<and>
   findNextStep (workflowOf [stepA, stepB]) stepB True = None"
  using findNextStep_resolution [of 0 "workflowOf [stepA, stepB]" True]
    findNextStep_resolution [of 0 "workflowOf [stepA, stepB]" False]
    findNextStep_resolution [of 1 "workflowOf [stepA, stepB]" True]
  by (simp add: sample_defs Let_def)

subsection \<open>executeStepWithRetry\<close>

lemma executeStep_effect:
  "\<exists>r x'. executeStep H step x = (succeeded r, x') \<and>
      r = fst (runStepAgent H (prompt step) (orNum (step_maxTurns step) DEFAULT_MAX_TURNS) (world x)) \<and>
      events x' = events x @ [AgentCall (prompt step) (orNum (step_maxTurns step) DEFAULT_MAX_TURNS) r] \<and>
      aborted x' = (aborted x \<or> abortCalled r)"
  by (auto simp: executeStep_def callAgent_def succeeded_def Let_def
           split: prod.splits agent_outcome.splits)

lemma retry_loop_later:
  "0 < k \<Longrightarrow>
   \<exists>rs ok x'. executeStepWithRetry_loop H step M k x = (ok, x') \<and>
      events x' = events x @ retried step rs \<and>
      int (length rs) \<le> max 0 (M + 1 - k) \<and>
      (\<forall>r\<in>set (butlast rs). \<not> succeeded r \<and> \<not> abortCalled r) \<and>
      (ok \<longleftrightarrow> rs \<noteq> [] \<and> succeeded (last rs)) \<and>
      (\<not> ok \<and> \<not> aborted x' \<longrightarrow> int (length rs) = max 0 (M + 1 - k)) \<and>
      (aborted x \<longrightarrow> rs = []) \<and>
      (rs = [] \<longrightarrow> aborted x' = aborted x)"
proof (induction H step M k x rule: executeStepWithRetry_loop.induct)
  case (1 H step M k x)
  let ?p = "prompt step" and ?t = "orNum (step_maxTurns step) DEFAULT_MAX_TURNS"
  show ?case
  proof (cases "k \<le> M \<and> \<not> aborted x")
    case False
    then have "\<exists>x'. executeStepWithRetry_loop H step M k x = (False, x') \<and> events x' = events x
         \<and> (\<not> aborted x' \<longrightarrow> \<not> k \<le> M) \<and> aborted x' = aborted x"
      by (auto simp: executeStepWithRetry_loop.simps[of H step M k x])
    then obtain x' where "executeStepWithRetry_loop H step M k x = (False, x')"
      "events x' = events x" "\<not> aborted x' \<longrightarrow> \<not> k \<le> M" "aborted x' = aborted x" by blast
    then show ?thesis
      by (intro exI[of _ "[]"] exI[of _ False] exI[of _ x']) (auto simp: retried_def)
  next
    case True
    define x1 where "x1 = delay H 1000 (log H (step_id step) (step_name step) Info (MsgRetry k M) x)"
    obtain r x2 where es: "executeStep H step x1 = (succeeded r, x2)"
      "events x2 = events x1 @ [AgentCall ?p ?t r]" "aborted x2 = (aborted x1 \<or> abortCalled r)"
      using executeStep_effect[of H step x1] by blast
    have ev1: "events x1 = events x @ [Timeout 1000]"
      by (simp add: x1_def delay_fields)
    show ?thesis
    proof (cases "succeeded r")
      case True
      with \<open>k \<le> M \<and> \<not> aborted x\<close> "1.prems" es have "executeStepWithRetry_loop H step M k x = (True, x2)"
        by (simp add: executeStepWithRetry_loop.simps[of H step M k x] x1_def)
      with True es ev1 \<open>k \<le> M \<and> \<not> aborted x\<close> show ?thesis
        by (intro exI[of _ "[r]"] exI[of _ True] exI[of _ x2]) (auto simp: retried_def)
    next
      case False
      with \<open>k \<le> M \<and> \<not> aborted x\<close> "1.prems" es
      have unf: "executeStepWithRetry_loop H step M k x = executeStepWithRetry_loop H step M (k + 1) x2"
        by (simp add: executeStepWithRetry_loop.simps[of H step M k x] x1_def)
      have "\<exists>rs ok x'. executeStepWithRetry_loop H step M (k + 1) x2 = (ok, x') \<and>
          events x' = events x2 @ retried step rs \<and>
          int (length rs) \<le> max 0 (M + 1 - (k + 1)) \<and>
          (\<forall>r\<in>set (butlast rs). \<not> succeeded r \<and> \<not> abortCalled r) \<and>
          (ok \<longleftrightarrow> rs \<noteq> [] \<and> succeeded (last rs)) \<and>
          (\<not> ok \<and> \<not> aborted x' \<longrightarrow> int (length rs) = max 0 (M + 1 - (k + 1))) \<and>
          (aborted x2 \<longrightarrow> rs = []) \<and>
          (rs = [] \<longrightarrow> aborted x' = aborted x2)"
        using "1.IH"[of "succeeded r" x2] True False es "1.prems"
        by (simp add: x1_def)
      then obtain rs ok x' where rest:
        "executeStepWithRetry_loop H step M (k + 1) x2 = (ok, x')"
        "events x' = events x2 @ retried step rs"
        "int (length rs) \<le> max 0 (M + 1 - (k + 1))"
        "\<forall>r\<in>set (butlast rs). \<not> succeeded r \<and> \<not> abortCalled r"
        "ok \<longleftrightarrow> rs \<noteq> [] \<and> succeeded (last rs)"
        "\<not> ok \<and> \<not> aborted x' \<longrightarrow> int (length rs) = max 0 (M + 1 - (k + 1))"
        "aborted x2 \<longrightarrow> rs = []" by blast
      have "events x' = events x @ retried step (r # rs)"
        using rest(2) es(2) ev1 by (simp add: retried_def)
      moreover have "int (length (r # rs)) \<le> max 0 (M + 1 - k)"
        using rest(3) True by auto
      moreover have "\<forall>q\<in>set (butlast (r # rs)). \<not> succeeded q \<and> \<not> abortCalled q"
        using rest(4,7) False es(3) by auto
      moreover have "ok \<longleftrightarrow> r # rs \<noteq> [] \<and> succeeded (last (r # rs))"
        using rest(5) False by auto
      moreover have "\<not> ok \<and> \<not> aborted x' \<longrightarrow> int (length (r # rs)) = max 0 (M + 1 - k)"
        using rest(6) True by auto
      moreover have "aborted x \<longrightarrow> r # rs = []"
        using True by simp
      ultimately show ?thesis
        using unf rest(1)
        by (intro exI[of _ "r # rs"] exI[of _ ok] exI[of _ x']) simp
    qed
  qed
qed


lemma retry_attempts:
  "\<exists>rs ok x'. executeStepWithRetry H step x = (ok, x') \<and>
      events x' = events x @ attempts step rs \<and>
      int (length rs) \<le> max 0 (orNum (retryCount step) 0 + 1) \<and>
      (\<forall>r\<in>set (butlast rs). \<not> succeeded r \<and> \<not> abortCalled r) \<and>
      (ok \<longleftrightarrow> rs \<noteq> [] \<and> succeeded (last rs)) \<and>
      (\<not> ok \<and> \<not> aborted x' \<longrightarrow> int (length rs) = max 0 (orNum (retryCount step) 0 + 1)) \<and>
      (aborted x \<longrightarrow> rs = []) \<and>
      (rs = [] \<longrightarrow> aborted x' = aborted x)"
proof -
  define M where "M = orNum (retryCount step) 0"
  let ?p = "prompt step" and ?t = "orNum (step_maxTurns step) DEFAULT_MAX_TURNS"
  have unfold: "executeStepWithRetry H step x = executeStepWithRetry_loop H step M 0 x"
    by (simp add: executeStepWithRetry_def M_def)
  show ?thesis
  proof (cases "0 \<le> M \<and> \<not> aborted x")
    case False
    then have "\<exists>x'. executeStepWithRetry_loop H step M 0 x = (False, x') \<and>
        events x' = events x \<and> (\<not> aborted x' \<longrightarrow> \<not> 0 \<le> M) \<and> aborted x' = aborted x"
      by (auto simp: executeStepWithRetry_loop.simps[of H step M 0 x])
    then obtain x' where "executeStepWithRetry_loop H step M 0 x = (False, x')"
      "events x' = events x" "\<not> aborted x' \<longrightarrow> \<not> 0 \<le> M" "aborted x' = aborted x" by blast
    then show ?thesis unfolding unfold M_def[symmetric]
      by (intro exI[of _ "[]"] exI[of _ False] exI[of _ x']) (auto simp: attempts_def)
  next
    case True
    obtain r x2 where es: "executeStep H step x = (succeeded r, x2)"
      "events x2 = events x @ [AgentCall ?p ?t r]" "aborted x2 = (aborted x \<or> abortCalled r)"
      using executeStep_effect[of H step x] by blast
    show ?thesis
    proof (cases "succeeded r")
      case ok: True
      with True es have "executeStepWithRetry_loop H step M 0 x = (True, x2)"
        by (simp add: executeStepWithRetry_loop.simps[of H step M 0 x])
      with ok es True show ?thesis unfolding unfold M_def[symmetric]
        by (intro exI[of _ "[r]"] exI[of _ True] exI[of _ x2])
           (auto simp: attempts_def retried_def)
    next
      case failed: False
      with True es
      have step1: "executeStepWithRetry_loop H step M 0 x = executeStepWithRetry_loop H step M 1 x2"
        by (simp add: executeStepWithRetry_loop.simps[of H step M 0 x])
      obtain rs ok x' where rest:
        "executeStepWithRetry_loop H step M 1 x2 = (ok, x')"
        "events x' = events x2 @ retried step rs"
        "int (length rs) \<le> max 0 (M + 1 - 1)"
        "\<forall>r\<in>set (butlast rs). \<not> succeeded r \<and> \<not> abortCalled r"
        "ok \<longleftrightarrow> rs \<noteq> [] \<and> succeeded (last rs)"
        "\<not> ok \<and> \<not> aborted x' \<longrightarrow> int (length rs) = max 0 (M + 1 - 1)"
        "aborted x2 \<longrightarrow> rs = []"
        using retry_loop_later[of 1 H step M x2] by auto
      have "events x' = events x @ attempts step (r # rs)"
        using rest(2) es(2) by (simp add: attempts_def)
      moreover have "int (length (r # rs)) \<le> max 0 (M + 1)"
        using rest(3) True by auto
      moreover have "\<forall>q\<in>set (butlast (r # rs)). \<not> succeeded q \<and> \<not> abortCalled q"
        using rest(4,7) failed es(3) by auto
      moreover have "ok \<longleftrightarrow> r # rs \<noteq> [] \<and> succeeded (last (r # rs))"
        using rest(5) failed by auto
      moreover have "\<not> ok \<and> \<not> aborted x' \<longrightarrow> int (length (r # rs)) = max 0 (M + 1)"
        using rest(6) True by auto
      moreover have "aborted x \<longrightarrow> r # rs = []"
        using True by simp
      ultimately show ?thesis
        using step1 rest(1) unfolding unfold M_def[symmetric]
        by (intro exI[of _ "r # rs"] exI[of _ ok] exI[of _ x']) simp
    qed
  qed
qed

lemma delay_aborted: "fst (setTimeout H ms (world x)) \<Longrightarrow> aborted (delay H ms x)"
  by (cases "setTimeout H ms (world x)") (simp add: delay_def)

lemma retry_loop_aborted:
  "k \<le> M \<Longrightarrow> aborted y \<Longrightarrow>
   executeStepWithRetry_loop H step M k y =
     (False, log H (step_id step) (step_name step) Error MsgAborted y)"
  by (simp add: executeStepWithRetry_loop.simps[of H step M k y])

lemma retry_loop_timer_abort:
  assumes "0 < k" "k \<le> M" "\<not> aborted y" "fst (setTimeout H 1000 (world y))"
  shows "\<exists>r y'. executeStepWithRetry_loop H step M k y = (succeeded r, y') \<and>
      events y' = events y @ [Timeout 1000,
        AgentCall (prompt step) (orNum (step_maxTurns step) DEFAULT_MAX_TURNS) r] \<and>
      aborted y'"
proof -
  let ?p = "prompt step" and ?t = "orNum (step_maxTurns step) DEFAULT_MAX_TURNS"
  define x1 where "x1 = delay H 1000 (log H (step_id step) (step_name step) Info (MsgRetry k M) y)"
  have ab1: "aborted x1"
    unfolding x1_def using assms(4) by (intro delay_aborted) simp
  have ev1: "events x1 = events y @ [Timeout 1000]"
    by (simp add: x1_def delay_fields)
  obtain r x2 where es: "executeStep H step x1 = (succeeded r, x2)"
    "events x2 = events x1 @ [AgentCall ?p ?t r]" "aborted x2 = (aborted x1 \<or> abortCalled r)"
    using executeStep_effect[of H step x1] by blast
  have ab2: "aborted x2" using es(3) ab1 by simp
  show ?thesis
  proof (cases "succeeded r")
    case True
    with assms es have "executeStepWithRetry_loop H step M k y = (True, x2)"
      by (simp add: executeStepWithRetry_loop.simps[of H step M k y] x1_def)
    with True es(2) ev1 ab2 show ?thesis
      by (intro exI[of _ r] exI[of _ x2]) simp
  next
    case False
    with assms es
    have unf: "executeStepWithRetry_loop H step M k y = executeStepWithRetry_loop H step M (k + 1) x2"
      by (simp add: executeStepWithRetry_loop.simps[of H step M k y] x1_def)
    have "\<exists>y'. executeStepWithRetry_loop H step M (k + 1) x2 = (False, y') \<and>
        events y' = events x2 \<and> aborted y'"
      using ab2 by (simp add: executeStepWithRetry_loop.simps[of H step M "k + 1" x2])
    with unf False es(2) ev1 show ?thesis
      by (intro exI[of _ r]) auto
  qed
qed

text \<open>
  C6 (as amended). \<open>executeStepWithRetry\<close> makes the agent calls \<open>rs\<close> on the step, all
  with the step's prompt and turn bound, and nothing else is awaited but a 1000 ms timer
  before each call after the first (\<open>attempts\<close>). There are at most \<open>retryCount + 1\<close>
  calls (\<open>retryCount || 0\<close>, line 98). Every call but the last failed and saw no abort;
  the result is \<open>true\<close> exactly when there is a last call and it succeeded; the result
  is \<open>false\<close> without an abort only after all \<open>retryCount + 1\<close> calls; and an executor
  that is already aborted makes no call at all. The flag is read at the top of each
  iteration of the loop (line 102), which is before the timer of a re-attempt: an
  iteration that finds the flag set returns \<open>false\<close> after the log line, with no timer
  and no call; an iteration of a re-attempt that finds it clear and whose timer sees the
  abort still makes its agent call, with the flag set, returns what that call came to,
  and makes no further call.
\<close>

theorem executeStepWithRetry_attempts:
  "(\<exists>rs ok x'. executeStepWithRetry H step (x :: 'w executor) = (ok, x') \<and>
      events x' = events x @ attempts step rs \<and>
      int (length rs) \<le> max 0 (orNum (retryCount step) 0 + 1) \<and>
      (\<forall>r\<in>set (butlast rs). \<not> succeeded r \<and> \<not> abortCalled r) \<and>
      (ok \<longleftrightarrow> rs \<noteq> [] \<and> succeeded (last rs)) \<and>
      (\<not> ok \<and> \<not> aborted x' \<longrightarrow> int (length rs) = max 0 (orNum (retryCount step) 0 + 1)) \<and>
      (aborted x \<longrightarrow> rs = [])) \<and>
   (\<forall>k (y :: 'w executor). k \<le> orNum (retryCount step) 0 \<and> aborted y \<longrightarrow>
      executeStepWithRetry_loop H step (orNum (retryCount step) 0) k y =
        (False, log H (step_id step) (step_name step) Error MsgAborted y)) \<and>
   (\<forall>k (y :: 'w executor). 0 < k \<and> k \<le> orNum (retryCount step) 0 \<and> \<not> aborted y \<and>
          fst (setTimeout H 1000 (world y)) \<longrightarrow>
      (\<exists>r y'. executeStepWithRetry_loop H step (orNum (retryCount step) 0) k y =
                 (succeeded r, y') \<and>
         events y' = events y @ [Timeout 1000,
           AgentCall (prompt step) (orNum (step_maxTurns step) DEFAULT_MAX_TURNS) r] \<and>
         aborted y'))"
proof (intro conjI allI impI)
  show "\<exists>rs ok x'. executeStepWithRetry H step x = (ok, x') \<and>
      events x' = events x @ attempts step rs \<and>
      int (length rs) \<le> max 0 (orNum (retryCount step) 0 + 1) \<and>
      (\<forall>r\<in>set (butlast rs). \<not> succeeded r \<and> \<not> abortCalled r) \<and>
      (ok \<longleftrightarrow> rs \<noteq> [] \<and> succeeded (last rs)) \<and>
      (\<not> ok \<and> \<not> aborted x' \<longrightarrow> int (length rs) = max 0 (orNum (retryCount step) 0 + 1)) \<and>
      (aborted x \<longrightarrow> rs = [])"
    using retry_attempts [of H step x] by blast
next
  fix k and y :: "'w executor"
  assume "k \<le> orNum (retryCount step) 0 \<and> aborted y"
  then show "executeStepWithRetry_loop H step (orNum (retryCount step) 0) k y =
        (False, log H (step_id step) (step_name step) Error MsgAborted y)"
    by (intro retry_loop_aborted) simp_all
next
  fix k and y :: "'w executor"
  assume "0 < k \<and> k \<le> orNum (retryCount step) 0 \<and> \<not> aborted y \<and>
          fst (setTimeout H 1000 (world y))"
  then show "\<exists>r y'. executeStepWithRetry_loop H step (orNum (retryCount step) 0) k y =
                 (succeeded r, y') \<and>
         events y' = events y @ [Timeout 1000,
           AgentCall (prompt step) (orNum (step_maxTurns step) DEFAULT_MAX_TURNS) r] \<and>
         aborted y'"
    by (intro retry_loop_timer_abort) simp_all
qed

lemmas timer_defs = timerAbortHost_def sample_defs

text \<open>
  C6 as stated fails where the abort arrives during the back-off: the flag is not read
  between the timer and the call. With a first call that fails, a timer during which
  \<open>abort()\<close> is called and a second call that succeeds, neither call seeing an abort
  itself, the second call is made although the executor is aborted, and the result is
  \<open>true\<close>.
\<close>

theorem executeStepWithRetry_attempts_counterexample:
  "\<not> aborted (newExecutor [failRun, okRun]) \<and> \<not> abortCalled failRun \<and> \<not> abortCalled okRun \<and>
   fst (setTimeout timerAbortHost 1000 [okRun]) \<and>
   fst (executeStepWithRetry timerAbortHost stepA (newExecutor [failRun, okRun])) \<and>
   events (snd (executeStepWithRetry timerAbortHost stepA (newExecutor [failRun, okRun]))) =
     [AgentCall ''open'' 20 failRun, Timeout 1000, AgentCall ''open'' 20 okRun] \<and>
   aborted (snd (executeStepWithRetry timerAbortHost stepA (newExecutor [failRun, okRun])))"
  by (simp add: executor_defs executeStepWithRetry_loop.simps timer_defs)

theorem executeStepWithRetry_attempts_witness:
  "executeStepWithRetry scriptHost stepA (newExecutor [failRun, okRun]) =
     (True, \<lparr>aborted = False,
        logs = logs (snd (executeStepWithRetry scriptHost stepA (newExecutor [failRun, okRun]))),
        events = [AgentCall ''open'' 20 failRun, Timeout 1000, AgentCall ''open'' 20 okRun],
        world = []\<rparr>) \<and>
   (\<exists>rs. events (snd (executeStepWithRetry scriptHost stepA (newExecutor [failRun, okRun]))) =
            attempts stepA rs \<and> length rs \<le> 2) \<and>
   executeStepWithRetry_loop scriptHost stepA 1 0 (abort (newExecutor [failRun, okRun])) =
     (False, log scriptHost ''a'' ''A'' Error MsgAborted (abort (newExecutor [failRun, okRun]))) \<and>
   (\<exists>r y'. executeStepWithRetry_loop timerAbortHost stepA 1 1
              (snd (executeStep timerAbortHost stepA (newExecutor [failRun, okRun]))) =
              (succeeded r, y') \<and>
           events y' = [AgentCall ''open'' 20 failRun, Timeout 1000, AgentCall ''open'' 20 r] \<and>
           aborted y')"
proof -
  have run: "executeStepWithRetry scriptHost stepA (newExecutor [failRun, okRun]) =
     (True, \<lparr>aborted = False,
        logs = logs (snd (executeStepWithRetry scriptHost stepA (newExecutor [failRun, okRun]))),
        events = [AgentCall ''open'' 20 failRun, Timeout 1000, AgentCall ''open'' 20 okRun],
        world = []\<rparr>)"
    by (simp add: executor_defs executeStepWithRetry_loop.simps sample_defs)
  note inst = executeStepWithRetry_attempts [of scriptHost stepA "newExecutor [failRun, okRun]"]
  from inst obtain rs ok x' where
    "executeStepWithRetry scriptHost stepA (newExecutor [failRun, okRun]) = (ok, x')"
    "events x' = events (newExecutor [failRun, okRun]) @ attempts stepA rs"
    "int (length rs) \<le> max 0 (orNum (retryCount stepA) 0 + 1)"
    by blast
  then have calls: "\<exists>rs. events (snd (executeStepWithRetry scriptHost stepA
      (newExecutor [failRun, okRun]))) = attempts stepA rs \<and> length rs \<le> 2"
    by (intro exI[of _ rs]) (simp add: newExecutor_def stepA_def orNum_def)
  have "0 \<le> orNum (retryCount stepA) 0 \<and> aborted (abort (newExecutor [failRun, okRun]))"
    by (simp add: stepA_def orNum_def abort_def)
  with inst have "executeStepWithRetry_loop scriptHost stepA (orNum (retryCount stepA) 0) 0
        (abort (newExecutor [failRun, okRun])) =
      (False, log scriptHost (step_id stepA) (step_name stepA) Error MsgAborted
         (abort (newExecutor [failRun, okRun])))"
    by blast
  then have stopped: "executeStepWithRetry_loop scriptHost stepA 1 0
        (abort (newExecutor [failRun, okRun])) =
      (False, log scriptHost ''a'' ''A'' Error MsgAborted (abort (newExecutor [failRun, okRun])))"
    by (simp add: stepA_def orNum_def)
  define y where "y = snd (executeStep timerAbortHost stepA (newExecutor [failRun, okRun]))"
  have y: "\<not> aborted y" "fst (setTimeout timerAbortHost 1000 (world y))"
    "events y = [AgentCall ''open'' 20 failRun]"
    by (simp_all add: y_def executor_defs timer_defs)
  have "(0::int) < 1 \<and> 1 \<le> orNum (retryCount stepA) 0 \<and> \<not> aborted y \<and>
      fst (setTimeout timerAbortHost 1000 (world y))"
    using y by (simp add: stepA_def orNum_def)
  with executeStepWithRetry_attempts [of timerAbortHost stepA "newExecutor [failRun, okRun]"]
  have "\<exists>r y'. executeStepWithRetry_loop timerAbortHost stepA (orNum (retryCount stepA) 0) 1 y =
                 (succeeded r, y') \<and>
         events y' = events y @ [Timeout 1000,
           AgentCall (prompt stepA) (orNum (step_maxTurns stepA) DEFAULT_MAX_TURNS) r] \<and>
         aborted y'"
    by blast
  then have late: "\<exists>r y'. executeStepWithRetry_loop timerAbortHost stepA 1 1 y = (succeeded r, y') \<and>
           events y' = [AgentCall ''open'' 20 failRun, Timeout 1000, AgentCall ''open'' 20 r] \<and>
           aborted y'"
    using y(3) by (simp add: stepA_def orNum_def DEFAULT_MAX_TURNS_def)
  from run calls stopped late show ?thesis
    unfolding y_def by blast
qed

subsection \<open>Mission mode\<close>

text \<open>
  C3. When \<open>mission\<close> is present and not empty after trimming, \<open>execute\<close> makes exactly
  one agent call, with the mission as its prompt (and \<open>maxTurns || 30\<close>); the result
  has \<open>stepsExecuted = 1\<close> and \<open>lastStepId = "mission"\<close> whatever the call comes to
  (success, failure or a raised error), its \<open>success\<close> is that of the call, and the
  whole outcome is the same for any value of \<open>steps\<close>.
\<close>

theorem execute_mission_mode:
  assumes "mission wkf = Some m" and "m \<noteq> []" and "trim m \<noteq> []"
  shows "\<exists>res x' r. execute H wkf x = (res, x') \<and>
           stepsExecuted res = 1 \<and> lastStepId res = Some ''mission'' \<and>
           r = fst (runStepAgent H m (orNum (wf_maxTurns wkf) 30) (world x)) \<and>
           events x' = events x @ [AgentCall m (orNum (wf_maxTurns wkf) 30) r] \<and>
           success res = succeeded r \<and>
           (\<forall>ss. execute H (wkf\<lparr>steps := ss\<rparr>) x = execute H wkf x)"
  using assms
  by (auto simp: execute_def missionMode_def executeMission_def callAgent_def Let_def
        succeeded_def log_def split: prod.splits agent_outcome.splits)

theorem execute_mission_mode_witness:
  "mission ((workflowOf [stepA, stepB])\<lparr>mission := Some ''go''\<rparr>) = Some ''go'' \<and>
   trim ''go'' \<noteq> [] \<and>
   (\<exists>res x'. execute scriptHost ((workflowOf [stepA, stepB])\<lparr>mission := Some ''go''\<rparr>)
                (newExecutor [failRun]) = (res, x') \<and>
      stepsExecuted res = 1 \<and> lastStepId res = Some ''mission'' \<and> \<not> success res \<and>
      events x' = [AgentCall ''go'' 30 failRun])"
proof -
  have trimmed: "trim ''go'' \<noteq> []"
    by (simp add: trim_def ws1_def ws2_def ws3_def)
  from execute_mission_mode [of "(workflowOf [stepA, stepB])\<lparr>mission := Some ''go''\<rparr>" "''go''"
      scriptHost "newExecutor [failRun]"] trimmed
  show ?thesis
    by (auto simp: sample_defs orNum_def succeeded_def)
qed

subsection \<open>The step limit\<close>

lemma ERR_distinct:
  "ERR_ABORTED \<noteq> ERR_STEP_FAILED" "ERR_LIMIT \<noteq> ERR_STEP_FAILED" "ERR_ABORTED \<noteq> ERR_LIMIT"
  "ERR_LIMIT \<noteq> []" "ERR_STEP_FAILED \<noteq> []" "ERR_ABORTED \<noteq> []"
  by (simp_all add: ERR_ABORTED_def ERR_STEP_FAILED_def ERR_LIMIT_def)

lemma execute_loop_bound:
  "n \<le> 50 \<Longrightarrow> execute_loop H wkf cur n lastId None x = (n', lastId', err', x') \<Longrightarrow>
     n' \<le> 51 \<and> (50 < n' \<longleftrightarrow> err' = Some ERR_LIMIT) \<and> (50 < n' \<longrightarrow> \<not> aborted x') \<and>
     (err' = None \<or> err' = Some ERR_LIMIT \<or> err' = Some ERR_STEP_FAILED)"
proof (induction H wkf cur n lastId "None :: string option" x rule: execute_loop.induct)
  case (1 H wkf currentStep n lastId x)
  show ?case
  proof (cases currentStep)
    case None
    with 1 show ?thesis by (simp add: execute_loop.simps[of H wkf None])
  next
    case (Some cur)
    show ?thesis
    proof (cases "aborted x")
      case True
      with Some 1 show ?thesis by (simp add: execute_loop.simps[of H wkf "Some cur"])
    next
      case na: False
      show ?thesis
      proof (cases "50 < n + 1")
        case True
        with Some na 1 show ?thesis
          by (auto simp: execute_loop.simps[of H wkf "Some cur"])
      next
        case False
        obtain ok x1 where r: "executeStepWithRetry H cur x = (ok, x1)" by force
        show ?thesis
        proof (cases "\<not> ok \<and> findNextStep wkf cur ok = None")
          case True
          with Some na False r 1 show ?thesis
            using ERR_distinct by (auto simp: execute_loop.simps[of H wkf "Some cur"])
        next
          case cont: False
          with Some na False r "1.prems"
          have "execute_loop H wkf (findNextStep wkf cur ok) (n + 1) (Some (step_id cur)) None x1 =
                  (n', lastId', err', x')"
            by (simp add: execute_loop.simps[of H wkf "Some cur"])
          moreover have "n + 1 \<le> 50" using False by simp
          ultimately show ?thesis
            using "1.hyps"[of cur ok x1] Some na False r cont by simp
        qed
      qed
    qed
  qed
qed

text \<open>
  C2 (as amended). \<open>execute\<close> increments \<open>stepsExecuted\<close> before it tests the limit
  (lines 243-250), so the count it returns never exceeds 51, and a count above 50 is
  returned only together with \<open>success = false\<close> and the limit error of line 247.
\<close>

theorem execute_step_limit:
  "\<exists>res x'. execute H wkf x = (res, x') \<and> stepsExecuted res \<le> 51 \<and>
      (50 < stepsExecuted res \<longrightarrow> \<not> success res \<and> error res = Some ERR_LIMIT)"
proof (cases "missionMode wkf \<or> length (steps wkf) = 0")
  case True
  then show ?thesis
    by (auto simp: execute_def executeMission_def Let_def split: prod.splits agent_outcome.splits)
next
  case False
  define x1 where "x1 = log H ''workflow'' (wf_name wkf) Info (MsgWorkflowStart (wf_name wkf)) x"
  obtain n lastId err x2 where
    loop: "execute_loop H wkf (Some (steps wkf ! 0)) 0 None None x1 = (n, lastId, err, x2)"
    by (metis prod_cases4)
  from execute_loop_bound[OF _ loop]
  have b: "n \<le> 51" "50 < n \<longleftrightarrow> err = Some ERR_LIMIT" "50 < n \<longrightarrow> \<not> aborted x2" by simp_all
  from False loop b show ?thesis
    using ERR_distinct by (auto simp: execute_def Let_def x1_def)
qed

lemma loop_sample:
  "stepsExecuted (fst (execute scriptHost (workflowOf [stepLoop]) (newExecutor []))) = 51"
  by code_simp

text \<open>
  C2 as stated fails: one step whose \<open>onSuccess\<close> is its own id, with an agent that
  always succeeds, is run 50 times and the result reports \<open>stepsExecuted = 51\<close>.
\<close>

theorem execute_step_limit_counterexample:
  "\<not> stepsExecuted (fst (execute scriptHost (workflowOf [stepLoop]) (newExecutor []))) \<le> 50"
  by (simp add: loop_sample)

theorem execute_step_limit_witness:
  "stepsExecuted (fst (execute scriptHost (workflowOf [stepLoop]) (newExecutor []))) = 51 \<and>
   \<not> success (fst (execute scriptHost (workflowOf [stepLoop]) (newExecutor []))) \<and>
   error (fst (execute scriptHost (workflowOf [stepLoop]) (newExecutor []))) = Some ERR_LIMIT"
  using execute_step_limit [of scriptHost "workflowOf [stepLoop]" "newExecutor []"] loop_sample
  by auto


subsection \<open>The \<open>"retry"\<close> and \<open>"end"\<close> sentinels of \<open>onFailure\<close>\<close>

lemma sentinelSwap_fields:
  assumes "sentinelSwap a b"
  shows "step_id b = step_id a" "step_name b = step_name a" "prompt b = prompt a"
    "step_maxTurns b = step_maxTurns a" "onSuccess b = onSuccess a"
    "retryCount b = retryCount a"
    "onFailure b = onFailure a \<or> (onFailure a = ''retry'' \<and> onFailure b = ''end'')"
  using assms by (auto simp: sentinelSwap_def)

lemma sentinelSwap_executeStep:
  "sentinelSwap a b \<Longrightarrow> executeStep H b x = executeStep H a x"
  by (auto simp: executeStep_def sentinelSwap_fields Let_def split: prod.splits agent_outcome.splits)

lemma sentinelSwap_retry_loop:
  "sentinelSwap a b \<Longrightarrow>
     executeStepWithRetry_loop H b M k x = executeStepWithRetry_loop H a M k x"
proof (induction H a M k x rule: executeStepWithRetry_loop.induct)
  case (1 H a M k x)
  show ?case
    using 1
    by (subst (1 2) executeStepWithRetry_loop.simps)
       (auto simp: sentinelSwap_fields sentinelSwap_executeStep split: prod.splits)
qed

lemma sentinelSwap_retry:
  "sentinelSwap a b \<Longrightarrow> executeStepWithRetry H b x = executeStepWithRetry H a x"
  by (simp add: executeStepWithRetry_def sentinelSwap_retry_loop sentinelSwap_fields)

lemma sentinelSwap_findIndex:
  "list_all2 sentinelSwap ss ss' \<Longrightarrow>
     findIndex (\<lambda>s. step_id s = r) ss' = findIndex (\<lambda>s. step_id s = r) ss"
  by (induction rule: list_all2_induct) (auto simp: sentinelSwap_fields)

lemma sentinelSwap_find:
  "list_all2 sentinelSwap ss ss' \<Longrightarrow>
     rel_option sentinelSwap (find (\<lambda>s. step_id s = r) ss) (find (\<lambda>s. step_id s = r) ss')"
  by (induction rule: list_all2_induct) (auto simp: sentinelSwap_fields)

lemma sentinelSwap_findNextStep:
  assumes "list_all2 sentinelSwap (steps w) (steps w')" and "sentinelSwap a b"
  shows "rel_option sentinelSwap (findNextStep w a ok) (findNextStep w' b ok)"
proof -
  have len: "length (steps w') = length (steps w)"
    using assms(1) by (simp add: list_all2_lengthD)
  have nth: "sentinelSwap (steps w ! j) (steps w' ! j)" if "j < length (steps w)" for j
    using assms(1) that by (simp add: list_all2_nthD)
  show ?thesis
  proof (cases ok)
    case True
    then show ?thesis
      using sentinelSwap_fields(1,5)[OF assms(2)] sentinelSwap_findIndex[OF assms(1)]
        sentinelSwap_find[OF assms(1)] len nth
      by (auto simp: findNextStep_def Let_def split: option.splits)
  next
    case False
    then show ?thesis
      using sentinelSwap_fields(1,7)[OF assms(2)] sentinelSwap_findIndex[OF assms(1)]
        sentinelSwap_find[OF assms(1)] len nth
      by (auto simp: findNextStep_def Let_def split: option.splits)
  qed
qed

lemma sentinelSwap_execute_loop:
  "list_all2 sentinelSwap (steps w) (steps w') \<Longrightarrow> rel_option sentinelSwap cur cur' \<Longrightarrow>
     execute_loop H w' cur' n lastId err x = execute_loop H w cur n lastId err x"
proof (induction H w cur n lastId err x arbitrary: cur' rule: execute_loop.induct)
  case (1 H w currentStep n lastId err x)
  show ?case
  proof (cases currentStep)
    case None
    with "1.prems" have "cur' = None" by simp
    with None show ?thesis
      by (simp add: execute_loop.simps[of _ _ None])
  next
    case (Some a)
    with "1.prems" obtain b where b: "cur' = Some b" "sentinelSwap a b"
      by (cases cur') auto
    obtain ok x1 where r: "executeStepWithRetry H a x = (ok, x1)" by force
    have r': "executeStepWithRetry H b x = (ok, x1)"
      using r b(2) by (simp add: sentinelSwap_retry)
    have nxt: "rel_option sentinelSwap (findNextStep w a ok) (findNextStep w' b ok)"
      using sentinelSwap_findNextStep[OF "1.prems"(1) b(2)] .
    then have none: "findNextStep w' b ok = None \<longleftrightarrow> findNextStep w a ok = None"
      by (cases "findNextStep w a ok"; cases "findNextStep w' b ok") auto
    have ids: "step_id b = step_id a" "step_name b = step_name a"
      using b(2) by (simp_all add: sentinelSwap_fields)
    have stop: "(\<not> ok \<and> findNextStep w' b ok = None) \<longleftrightarrow> (\<not> ok \<and> findNextStep w a ok = None)"
      using none by simp
    define stopNow where "stopNow \<longleftrightarrow> \<not> ok \<and> findNextStep w a ok = None"
    have L: "execute_loop H w' (Some b) n lastId err x =
        (if aborted x then (n, lastId, err, x)
         else if n + 1 > 50 then
           (n + 1, Some (step_id a), Some ERR_LIMIT,
            log H (step_id a) (step_name a) Error (MsgText ERR_LIMIT) x)
         else if stopNow then (n + 1, Some (step_id a), Some ERR_STEP_FAILED, x1)
         else execute_loop H w' (findNextStep w' b ok) (n + 1) (Some (step_id a)) err x1)"
    proof (cases ok)
      case True
      with r' ids show ?thesis
        by (simp add: execute_loop.simps[of _ _ "Some b"] stopNow_def)
    next
      case False
      with r' ids none show ?thesis
        by (simp add: execute_loop.simps[of _ _ "Some b"] stopNow_def)
    qed
    have R: "execute_loop H w (Some a) n lastId err x =
        (if aborted x then (n, lastId, err, x)
         else if n + 1 > 50 then
           (n + 1, Some (step_id a), Some ERR_LIMIT,
            log H (step_id a) (step_name a) Error (MsgText ERR_LIMIT) x)
         else if stopNow then (n + 1, Some (step_id a), Some ERR_STEP_FAILED, x1)
         else execute_loop H w (findNextStep w a ok) (n + 1) (Some (step_id a)) err x1)"
      unfolding stopNow_def using r by (simp add: execute_loop.simps[of _ _ "Some a"])
    show ?thesis
    proof (cases "\<not> aborted x \<and> \<not> 50 < n + 1 \<and> \<not> stopNow")
      case True
      then have "execute_loop H w' (findNextStep w' b ok) (n + 1) (Some (step_id a)) err x1 =
          execute_loop H w (findNextStep w a ok) (n + 1) (Some (step_id a)) err x1"
        using "1.IH"[of a ok x1 "findNextStep w' b ok"] Some r "1.prems"(1) nxt
        by (simp add: stopNow_def)
      with True show ?thesis
        unfolding Some b(1) L R by simp
    next
      case False
      then show ?thesis
        unfolding Some b(1) L R by auto
    qed
  qed
qed

lemma sentinelSwap_execute:
  assumes "list_all2 sentinelSwap (steps w) ss'"
  shows "execute H (w\<lparr>steps := ss'\<rparr>) x = execute H w x"
proof -
  have len: "length ss' = length (steps w)"
    using assms by (simp add: list_all2_lengthD)
  have mm: "missionMode (w\<lparr>steps := ss'\<rparr>) = missionMode w"
    by (simp add: missionMode_def)
  have em: "executeMission H (w\<lparr>steps := ss'\<rparr>) y = executeMission H w y" for y
    by (auto simp: executeMission_def Let_def split: prod.splits agent_outcome.splits)
  show ?thesis
  proof (cases "missionMode w \<or> length (steps w) = 0")
    case True
    then show ?thesis using len mm em by (auto simp: execute_def Let_def)
  next
    case False
    then have "rel_option sentinelSwap (Some (steps w ! 0)) (Some (ss' ! 0))"
      using assms by (simp add: list_all2_nthD)
    then have "execute_loop H (w\<lparr>steps := ss'\<rparr>) (Some (ss' ! 0)) 0 None None y =
        execute_loop H w (Some (steps w ! 0)) 0 None None y" for y
      using assms by (intro sentinelSwap_execute_loop) simp_all
    with False len mm show ?thesis
      by (simp add: execute_def Let_def)
  qed
qed

text \<open>
  C5. Replacing \<open>onFailure = "retry"\<close> by \<open>onFailure = "end"\<close> in one step of a
  workflow changes nothing in what \<open>execute\<close> does under the same host: the result
  (in particular \<open>success\<close> and \<open>lastStepId\<close>) and the final executor state are equal.
\<close>

theorem retry_sentinel_same_as_end:
  assumes "k < length (steps w)" and "onFailure (steps w ! k) = ''retry''"
  shows "let w' = w\<lparr>steps := (steps w)[k := (steps w ! k)\<lparr>onFailure := ''end''\<rparr>]\<rparr> in
           execute H w' x = execute H w x \<and>
           success (fst (execute H w' x)) = success (fst (execute H w x)) \<and>
           lastStepId (fst (execute H w' x)) = lastStepId (fst (execute H w x))"
proof -
  have "list_all2 sentinelSwap (steps w) ((steps w)[k := (steps w ! k)\<lparr>onFailure := ''end''\<rparr>])"
    using assms
    by (auto simp: list_all2_conv_all_nth nth_list_update sentinelSwap_def)
  then have "execute H (w\<lparr>steps := (steps w)[k := (steps w ! k)\<lparr>onFailure := ''end''\<rparr>]\<rparr>) x =
      execute H w x"
    by (rule sentinelSwap_execute)
  then show ?thesis
    unfolding Let_def by simp
qed

theorem retry_sentinel_same_as_end_witness:
  "onFailure (steps (workflowOf [stepA, stepB]) ! 0) = ''retry'' \<and>
   execute scriptHost (workflowOf [stepA\<lparr>onFailure := ''end''\<rparr>, stepB])
       (newExecutor [failRun, failRun]) =
     execute scriptHost (workflowOf [stepA, stepB]) (newExecutor [failRun, failRun]) \<and>
   \<not> success (fst (execute scriptHost (workflowOf [stepA, stepB])
                     (newExecutor [failRun, failRun]))) \<and>
   lastStepId (fst (execute scriptHost (workflowOf [stepA, stepB])
                     (newExecutor [failRun, failRun]))) = Some ''a''"
proof -
  have run: "\<not> success (fst (execute scriptHost (workflowOf [stepA, stepB])
                     (newExecutor [failRun, failRun]))) \<and>
     lastStepId (fst (execute scriptHost (workflowOf [stepA, stepB])
                     (newExecutor [failRun, failRun]))) = Some ''a''"
    by code_simp
  from retry_sentinel_same_as_end [of 0 "workflowOf [stepA, stepB]" scriptHost
      "newExecutor [failRun, failRun]"] run
  show ?thesis
    by (simp add: workflowOf_def stepA_def Let_def)
qed

subsection \<open>Abort\<close>

lemma execute_loop_aborted:
  "aborted x \<Longrightarrow> execute_loop H wkf cur n lastId err x = (n, lastId, err, x)"
  by (cases cur) (simp_all add: execute_loop.simps[of H wkf])

lemma execute_loop_Some:
  assumes "executeStepWithRetry H cur x = (ok, x1)"
    and "stop \<longleftrightarrow> \<not> ok \<and> findNextStep wkf cur ok = None"
  shows "execute_loop H wkf (Some cur) n lastId err x =
        (if aborted x then (n, lastId, err, x)
         else if n + 1 > 50 then
           (n + 1, Some (step_id cur), Some ERR_LIMIT,
            log H (step_id cur) (step_name cur) Error (MsgText ERR_LIMIT) x)
         else if stop then (n + 1, Some (step_id cur), Some ERR_STEP_FAILED, x1)
         else execute_loop H wkf (findNextStep wkf cur ok) (n + 1) (Some (step_id cur)) err x1)"
proof (cases ok)
  case True
  with assms show ?thesis by (simp add: execute_loop.simps[of _ _ "Some cur"])
next
  case False
  with assms show ?thesis by (simp add: execute_loop.simps[of _ _ "Some cur"])
qed

text \<open>
  C7. In step mode with at least one step: whenever the executor is aborted when
  \<open>execute\<close> returns, the result has \<open>success = false\<close> and the abort error of line
  263, which is not the step-failure error of line 257. And if \<open>abort()\<close> is called
  while the first step is being run (the executor is not aborted at the start and is
  aborted when \<open>executeStepWithRetry\<close> returns from the first step, so before any
  attempt at a second step), the result is that failure with \<open>stepsExecuted = 1\<close> and
  \<open>lastStepId\<close> the first step's id, and all that was awaited during the run are
  attempts at the first step, at least one: no further step is run, whatever the
  failure branch of the first step names.
\<close>

theorem execute_abort:
  assumes "\<not> missionMode wkf" and "steps wkf \<noteq> []" and "execute H wkf x = (res, x')"
  shows "(aborted x' \<longrightarrow>
            \<not> success res \<and> error res = Some ERR_ABORTED \<and> error res \<noteq> Some ERR_STEP_FAILED) \<and>
         (\<not> aborted x \<and>
          aborted (snd (executeStepWithRetry H (steps wkf ! 0)
             (log H ''workflow'' (wf_name wkf) Info (MsgWorkflowStart (wf_name wkf)) x))) \<longrightarrow>
            \<not> success res \<and> error res = Some ERR_ABORTED \<and> stepsExecuted res = 1 \<and>
            lastStepId res = Some (step_id (steps wkf ! 0)) \<and>
            (\<exists>r rs. events x' = events x @ attempts (steps wkf ! 0) (r # rs)))"
proof -
  define x0 where "x0 = log H ''workflow'' (wf_name wkf) Info (MsgWorkflowStart (wf_name wkf)) x"
  define s0 where "s0 = steps wkf ! 0"
  obtain n lastId err x2 where
    loop: "execute_loop H wkf (Some s0) 0 None None x0 = (n, lastId, err, x2)"
    by (metis prod_cases4)
  have res: "aborted x' = aborted x2" "success res \<longrightarrow> \<not> aborted x2"
    "aborted x2 \<longrightarrow> error res = Some ERR_ABORTED" "stepsExecuted res = n"
    "lastStepId res = lastId" "events x' = events x2"
    using assms loop by (auto simp: execute_def Let_def x0_def s0_def)
  have general: "aborted x' \<longrightarrow>
      \<not> success res \<and> error res = Some ERR_ABORTED \<and> error res \<noteq> Some ERR_STEP_FAILED"
    using res ERR_distinct by auto
  have scenario: "\<not> success res \<and> error res = Some ERR_ABORTED \<and> stepsExecuted res = 1 \<and>
        lastStepId res = Some (step_id s0) \<and>
        (\<exists>r rs. events x' = events x @ attempts s0 (r # rs))"
    if na: "\<not> aborted x" and ab: "aborted (snd (executeStepWithRetry H s0 x0))"
  proof -
    obtain rs ok x1 where first: "executeStepWithRetry H s0 x0 = (ok, x1)"
      "events x1 = events x0 @ attempts s0 rs" "rs = [] \<longrightarrow> aborted x1 = aborted x0"
      using retry_attempts[of H s0 x0] by blast
    from ab first have ab1: "aborted x1" by simp
    with na first(3) have "rs \<noteq> []" by (auto simp: x0_def)
    then obtain r rs' where rs: "rs = r # rs'" by (cases rs) auto
    define stop where "stop \<longleftrightarrow> \<not> ok \<and> findNextStep wkf s0 ok = None"
    have "execute_loop H wkf (Some s0) 0 None None x0 =
        (if stop then (1, Some (step_id s0), Some ERR_STEP_FAILED, x1)
         else execute_loop H wkf (findNextStep wkf s0 ok) 1 (Some (step_id s0)) None x1)"
      using na execute_loop_Some[OF first(1) stop_def, of 0 None None] by (simp add: x0_def)
    moreover have "execute_loop H wkf (findNextStep wkf s0 ok) 1 (Some (step_id s0)) None x1 =
        (1, Some (step_id s0), None, x1)"
      using ab1 by (rule execute_loop_aborted)
    ultimately have "n = 1" "lastId = Some (step_id s0)" "x2 = x1"
      using loop by (auto split: if_splits)
    with res ab1 first(2) rs show ?thesis
      by (auto simp: x0_def)
  qed
  from general scenario show ?thesis
    unfolding x0_def s0_def by blast
qed

theorem execute_abort_witness:
  "\<not> missionMode (workflowOf [stepA, stepB]) \<and> steps (workflowOf [stepA, stepB]) \<noteq> [] \<and>
   \<not> aborted (newExecutor [abortRun]) \<and>
   aborted (snd (executeStepWithRetry scriptHost (steps (workflowOf [stepA, stepB]) ! 0)
     (log scriptHost ''workflow'' (wf_name (workflowOf [stepA, stepB])) Info
        (MsgWorkflowStart (wf_name (workflowOf [stepA, stepB]))) (newExecutor [abortRun])))) \<and>
   \<not> success (fst (execute scriptHost (workflowOf [stepA, stepB]) (newExecutor [abortRun]))) \<and>
   error (fst (execute scriptHost (workflowOf [stepA, stepB]) (newExecutor [abortRun]))) =
     Some ERR_ABORTED \<and>
   stepsExecuted (fst (execute scriptHost (workflowOf [stepA, stepB])
     (newExecutor [abortRun]))) = 1 \<and>
   lastStepId (fst (execute scriptHost (workflowOf [stepA, stepB])
     (newExecutor [abortRun]))) = Some (step_id stepA)"
proof -
  let ?w = "workflowOf [stepA, stepB]" and ?x = "newExecutor [abortRun]"
  have mode: "\<not> missionMode ?w" "steps ?w \<noteq> []" "\<not> aborted ?x" "steps ?w ! 0 = stepA"
    by (simp_all add: missionMode_def workflowOf_def newExecutor_def)
  have first: "aborted (snd (executeStepWithRetry scriptHost (steps ?w ! 0)
     (log scriptHost ''workflow'' (wf_name ?w) Info (MsgWorkflowStart (wf_name ?w)) ?x)))"
    by (simp add: executor_defs executeStepWithRetry_loop.simps sample_defs)
  from execute_abort [OF mode(1,2) surjective_pairing, of scriptHost ?x] mode(3,4) first
  show ?thesis
    using mode(1,2) by simp
qed

section \<open>Properties of the store\<close>

lemma stepJSON_inj: "stepJSON a = stepJSON b \<Longrightarrow> a = b"
  by (cases a; cases b) (auto simp: stepJSON_def optional_def split: option.splits)

lemma scheduleJSON_inj: "scheduleJSON a = scheduleJSON b \<Longrightarrow> a = b"
  by (cases a; cases b) (auto simp: scheduleJSON_def optional_def split: option.splits)

lemma map_stepJSON_inj: "map stepJSON xs = map stepJSON ys \<Longrightarrow> xs = ys"
  using stepJSON_inj by (metis inj_map_eq_map injI)

text \<open>A JSON object is the encoding of at most one \<open>Workflow\<close>.\<close>

lemma workflowJSON_inj: "workflowJSON a = workflowJSON b \<Longrightarrow> a = b"
  by (cases a; cases b)
     (auto simp: workflowJSON_def optional_def split: option.splits
           dest: map_stepJSON_inj scheduleJSON_inj)

lemma update_optional:
  "k \<noteq> k' \<Longrightarrow>
     AList.update k v (optional k' f x @ rest) = optional k' f x @ AList.update k v rest"
  by (simp add: optional_def split: option.splits)

lemma workflowJSON_props:
  "getProp (workflowJSON w) ''id'' = Some (JStr (wf_id w))"
  "getProp (workflowJSON w) ''name'' = Some (JStr (wf_name w))"
  "getProp (workflowJSON w) ''description'' = map_option JStr (description w)"
  "getProp (workflowJSON w) ''mission'' = map_option JStr (mission w)"
  "getProp (workflowJSON w) ''steps'' = Some (JArr (map stepJSON (steps w)))"
  "getProp (workflowJSON w) ''createdAt'' = Some (JNum (createdAt w))"
  "getProp (workflowJSON w) ''updatedAt'' = Some (JNum (updatedAt w))"
  "getProp (workflowJSON w) ''schedule'' = map_option scheduleJSON (schedule w)"
  by (simp_all add: getProp_def workflowJSON_def optional_def split: option.splits)

lemma import_export:
  "wf_name w \<noteq> [] \<Longrightarrow>
     importWorkflow now newId (exportWorkflow w) =
       Some (workflowJSON (w\<lparr>wf_id := newId, createdAt := now, updatedAt := now\<rparr>))"
  by (simp add: importWorkflow_def exportWorkflow_def JSON_parse_def JSON_stringify_def
        workflowJSON_def getProp_def setProp_def truthy_def isArray_def update_optional
        optional_def split: option.splits)

lemma import_accepts:
  "importWorkflow now newId t \<noteq> None \<longleftrightarrow>
     (\<exists>kvs. t = Denotes (JObj kvs) \<and> truthy (map_of kvs ''name'') \<and>
            isArray (map_of kvs ''steps''))"
  by (cases t)
     (auto simp: importWorkflow_def JSON_parse_def getProp_def truthy_def isArray_def
           split: json.splits option.splits)

lemma import_object:
  "truthy (map_of kvs ''name'') \<Longrightarrow> isArray (map_of kvs ''steps'') \<Longrightarrow>
     importWorkflow now newId (Denotes (JObj kvs)) =
       Some (JObj (AList.update ''updatedAt'' (JNum now)
               (AList.update ''createdAt'' (JNum now)
                 (AList.update ''id'' (JStr newId) kvs))))"
  by (simp add: importWorkflow_def JSON_parse_def getProp_def setProp_def)

text \<open>
  C9 (as amended). For a workflow with a non-empty name (its \<open>steps\<close> is a list by its
  type), \<open>import(export(workflow))\<close> is accepted and returns the encoding of the
  workflow with \<open>id\<close> replaced by the generated id and \<open>createdAt\<close>, \<open>updatedAt\<close> by
  the current time: \<open>name\<close>, \<open>description\<close>, \<open>steps\<close>, \<open>mission\<close> and \<open>schedule\<close>
  are those of the original. \<open>import\<close> accepts a text exactly when it parses to an
  object whose \<open>name\<close> is truthy and whose \<open>steps\<close> is an array (line 443): it
  rejects a text that does not parse, a value that is not an object, a \<open>name\<close> that is
  absent, \<open>null\<close>, \<open>false\<close>, 0 or the empty string, and a \<open>steps\<close> that is absent
  or not an array; it accepts every other object, whatever the type of \<open>name\<close> and
  whatever \<open>steps\<close> holds, and what it accepts gets the generated id and the current
  time whatever \<open>id\<close> and timestamps the text had.
\<close>

theorem importWorkflow_roundtrip:
  "(wf_name w \<noteq> [] \<longrightarrow>
      (\<exists>j. importWorkflow now newId (exportWorkflow w) = Some j \<and>
           j = workflowJSON (w\<lparr>wf_id := newId, createdAt := now, updatedAt := now\<rparr>) \<and>
           getProp j ''name'' = Some (JStr (wf_name w)) \<and>
           getProp j ''description'' = map_option JStr (description w) \<and>
           getProp j ''steps'' = Some (JArr (map stepJSON (steps w))) \<and>
           getProp j ''mission'' = map_option JStr (mission w) \<and>
           getProp j ''schedule'' = map_option scheduleJSON (schedule w) \<and>
           getProp j ''id'' = Some (JStr newId) \<and>
           getProp j ''createdAt'' = Some (JNum now) \<and>
           getProp j ''updatedAt'' = Some (JNum now))) \<and>
   (importWorkflow now newId t \<noteq> None \<longleftrightarrow>
      (\<exists>kvs. t = Denotes (JObj kvs) \<and> truthy (map_of kvs ''name'') \<and>
             isArray (map_of kvs ''steps''))) \<and>
   importWorkflow now newId Invalid = None \<and>
   (\<forall>v. importWorkflow now newId (Denotes v) \<noteq> None \<longrightarrow> (\<exists>kvs. v = JObj kvs)) \<and>
   (\<forall>kvs. map_of kvs ''name'' = None \<or> map_of kvs ''name'' = Some JNull \<or>
          map_of kvs ''name'' = Some (JBool False) \<or> map_of kvs ''name'' = Some (JNum 0) \<or>
          map_of kvs ''name'' = Some (JStr []) \<or>
          map_of kvs ''steps'' = None \<or>
          (\<exists>x. map_of kvs ''steps'' = Some x \<and> (\<forall>xs. x \<noteq> JArr xs)) \<longrightarrow>
      importWorkflow now newId (Denotes (JObj kvs)) = None) \<and>
   (\<forall>kvs. truthy (map_of kvs ''name'') \<and> isArray (map_of kvs ''steps'') \<longrightarrow>
      importWorkflow now newId (Denotes (JObj kvs)) =
        Some (JObj (AList.update ''updatedAt'' (JNum now)
                (AList.update ''createdAt'' (JNum now)
                  (AList.update ''id'' (JStr newId) kvs)))))"
proof -
  have round: "wf_name w \<noteq> [] \<longrightarrow>
      (\<exists>j. importWorkflow now newId (exportWorkflow w) = Some j \<and>
           j = workflowJSON (w\<lparr>wf_id := newId, createdAt := now, updatedAt := now\<rparr>) \<and>
           getProp j ''name'' = Some (JStr (wf_name w)) \<and>
           getProp j ''description'' = map_option JStr (description w) \<and>
           getProp j ''steps'' = Some (JArr (map stepJSON (steps w))) \<and>
           getProp j ''mission'' = map_option JStr (mission w) \<and>
           getProp j ''schedule'' = map_option scheduleJSON (schedule w) \<and>
           getProp j ''id'' = Some (JStr newId) \<and>
           getProp j ''createdAt'' = Some (JNum now) \<and>
           getProp j ''updatedAt'' = Some (JNum now))"
    by (simp add: import_export workflowJSON_props)
  have invalid: "importWorkflow now newId Invalid = None"
    by (simp add: importWorkflow_def JSON_parse_def)
  have rejects: "importWorkflow now newId (Denotes (JObj kvs)) = None"
    if "map_of kvs ''name'' = None \<or> map_of kvs ''name'' = Some JNull \<or>
        map_of kvs ''name'' = Some (JBool False) \<or> map_of kvs ''name'' = Some (JNum 0) \<or>
        map_of kvs ''name'' = Some (JStr []) \<or>
        map_of kvs ''steps'' = None \<or>
        (\<exists>x. map_of kvs ''steps'' = Some x \<and> (\<forall>xs. x \<noteq> JArr xs))" for kvs
  proof -
    from that have "\<not> (truthy (map_of kvs ''name'') \<and> isArray (map_of kvs ''steps''))"
      by (auto simp: truthy_def isArray_def split: json.splits)
    with import_accepts[of now newId "Denotes (JObj kvs)"] show ?thesis by auto
  qed
  have objects: "\<exists>kvs. v = JObj kvs" if "importWorkflow now newId (Denotes v) \<noteq> None" for v
    using that import_accepts[of now newId "Denotes v"] by auto
  from round import_accepts invalid objects rejects import_object show ?thesis
    by blast
qed

text \<open>
  C9 as stated fails for a malformed \<open>name\<close> or \<open>steps\<close> that passes the test of
  line 443: a text whose \<open>name\<close> is the number 5 and whose \<open>steps\<close> is the array
  \<open>[1, "two", null]\<close> is accepted, and comes back with the generated id and the
  timestamps added.
\<close>

theorem importWorkflow_roundtrip_counterexample:
  "importWorkflow 7 ''wf-7-k3''
     (Denotes (JObj [(''name'', JNum 5), (''steps'', JArr [JNum 1, JStr ''two'', JNull])])) =
   Some (JObj [(''name'', JNum 5), (''steps'', JArr [JNum 1, JStr ''two'', JNull]),
               (''id'', JStr ''wf-7-k3''), (''createdAt'', JNum 7), (''updatedAt'', JNum 7)])"
  by (simp add: importWorkflow_def JSON_parse_def getProp_def setProp_def truthy_def
        isArray_def)

theorem importWorkflow_roundtrip_witness:
  "wf_name hourly \<noteq> [] \<and>
   importWorkflow 7 ''wf-7-k3'' (exportWorkflow hourly) =
     Some (workflowJSON (hourly\<lparr>wf_id := ''wf-7-k3'', createdAt := 7, updatedAt := 7\<rparr>)) \<and>
   importWorkflow 7 ''wf-7-k3'' (Denotes (JObj [(''name'', JStr []), (''steps'', JArr [])])) =
     None \<and>
   importWorkflow 7 ''wf-7-k3'' (Denotes (JObj [(''name'', JNum 0), (''steps'', JArr [])])) =
     None \<and>
   importWorkflow 7 ''wf-7-k3'' (Denotes (JObj [(''name'', JStr ''x'')])) = None \<and>
   importWorkflow 7 ''wf-7-k3''
     (Denotes (JObj [(''name'', JStr ''x''), (''steps'', JStr ''none'')])) = None \<and>
   importWorkflow 7 ''wf-7-k3'' Invalid = None"
proof -
  have name: "wf_name hourly \<noteq> []"
    by (simp add: hourly_def workflowOf_def)
  from importWorkflow_roundtrip [of hourly 7 "''wf-7-k3''" Invalid] name
  show ?thesis
    by simp
qed

lemma duplicate_json:
  "duplicateWorkflow now newId w =
     Some (workflowJSON (w\<lparr>wf_id := newId, wf_name := wf_name w @ COPY_SUFFIX,
                            createdAt := now, updatedAt := now\<rparr>))"
  by (simp add: duplicateWorkflow_def JSON_parse_def JSON_stringify_def
        workflowJSON_def spread_def update_optional)

text \<open>
  C10. \<open>duplicateWorkflow\<close> returns the encoding of exactly one workflow \<open>d\<close>: the
  original with the generated id, the name followed by the suffix of line 422, and
  \<open>createdAt\<close>, \<open>updatedAt\<close> set to the current time. Every other field of \<open>d\<close> is the
  original's; the schedule, \<open>lastRun\<close> and \<open>nextRun\<close> included, is copied as it is,
  so at any tick \<open>d\<close> is due exactly when the original is.
\<close>

theorem duplicateWorkflow_copy:
  "\<exists>d. duplicateWorkflow now newId w = Some (workflowJSON d) \<and>
       (\<forall>d'. workflowJSON d' = workflowJSON d \<longrightarrow> d' = d) \<and>
       d = w\<lparr>wf_id := newId, wf_name := wf_name w @ COPY_SUFFIX,
              createdAt := now, updatedAt := now\<rparr> \<and>
       description d = description w \<and> wf_enabled d = wf_enabled w \<and>
       mission d = mission w \<and> wf_maxTurns d = wf_maxTurns w \<and> steps d = steps w \<and>
       schedule d = schedule w \<and>
       getProp (workflowJSON d) ''schedule'' = map_option scheduleJSON (schedule w) \<and>
       (\<forall>tick. due tick d \<longleftrightarrow> due tick w)"
proof -
  let ?d = "w\<lparr>wf_id := newId, wf_name := wf_name w @ COPY_SUFFIX,
               createdAt := now, updatedAt := now\<rparr>"
  have "duplicateWorkflow now newId w = Some (workflowJSON ?d)"
    by (rule duplicate_json)
  moreover have "\<forall>d'. workflowJSON d' = workflowJSON ?d \<longrightarrow> d' = ?d"
    using workflowJSON_inj by blast
  moreover have "getProp (workflowJSON ?d) ''schedule'' = map_option scheduleJSON (schedule w)"
    by (simp add: workflowJSON_props)
  moreover have "\<forall>tick. due tick ?d \<longleftrightarrow> due tick w"
    by (auto simp: due_def split: option.splits)
  ultimately show ?thesis
    by (intro exI[of _ ?d]) simp
qed

theorem duplicateWorkflow_copy_witness:
  "due 5000 hourly \<and>
   (\<exists>d. duplicateWorkflow 7 ''wf-7-k3'' hourly = Some (workflowJSON d) \<and>
        wf_id d = ''wf-7-k3'' \<and> schedule d = Some everyHour \<and> due 5000 d)"
proof -
  have d: "due 5000 hourly"
    by (simp add: due_def hourly_def everyHour_def workflowOf_def)
  from duplicateWorkflow_copy [of 7 "''wf-7-k3''" hourly]
  obtain d where "duplicateWorkflow 7 ''wf-7-k3'' hourly = Some (workflowJSON d)"
    "d = hourly\<lparr>wf_id := ''wf-7-k3'', wf_name := wf_name hourly @ COPY_SUFFIX,
                 createdAt := 7, updatedAt := 7\<rparr>"
    "\<forall>tick. due tick d \<longleftrightarrow> due tick hourly"
    by blast
  with d show ?thesis
    by (intro conjI exI[of _ d]) (simp_all add: hourly_def)
qed

section \<open>Properties of the scheduler\<close>

subsection \<open>calculateNextRun\<close>






lemma atTime_day:
  assumes "readable z d h m" "0 \<le> h" "h < 24" "0 \<le> m" "m < 60"
  shows "localDay z (atTime z d h m) = d"
    and "LocalTime z (atTime z d h m) mod msPerDay = h * 3600000 + m * 60000"
proof -
  have r: "0 \<le> h * 3600000 + m * 60000" "h * 3600000 + m * 60000 < 86400000"
    using assms(2-5) by auto
  have e: "LocalTime z (atTime z d h m) = (h * 3600000 + m * 60000) + d * 86400000"
    using assms(1) by (simp add: readable_def msPerDay_def)
  show "localDay z (atTime z d h m) = d"
    unfolding localDay_def Day_def e msPerDay_def using r by (simp add: div_pos_pos_trivial)
  show "LocalTime z (atTime z d h m) mod msPerDay = h * 3600000 + m * 60000"
    unfolding e msPerDay_def using r by (simp add: mod_pos_pos_trivial)
qed











lemma parse_half_past_two: "parseTime (Some ''02:30'') = Some (2, 30)"
  by code_simp

lemmas zone_defs =
  newYork_def utcZone_def localDay_def atTime_def readable_def laterDays_def LocalTime_def
  UTC_def Day_def TimeClip_def msPerDay_def weekday_def


text \<open>
  Times that are not a time of day: \<open>"+9:3e1"\<close> is read as 9:30, as \<open>Number\<close> reads
  it; for \<open>"9999999999:00"\<close> the instant is beyond the range of \<open>Date\<close> and the result
  is \<open>NaN\<close>.
\<close>

lemma parse_signed_exponent: "parseTime (Some ''+9:3e1'') = Some (9, 30)"
  by code_simp

lemma parse_far: "parseTime (Some ''9999999999:00'') = Some (9999999999, 0)"
  by code_simp


lemma calculateNextRun_beyond_range:
  "calculateNextRun utcZone 5000 5000 ((workflowOf [stepA])\<lparr>schedule := Some faraway\<rparr>) =
     Some NaN"
  by (simp add: calculateNextRun_def parse_far faraway_def mornings_def workflowOf_def
        setHours_def zone_defs)

text \<open>
  Why the reading must exist: in New York on 10 March 2024 the clocks go from 02:00 to
  03:00. Asked at 04:00 that day for the next daily run at 02:30, the code answers 11
  March at 03:30, an hour after 11 March at 02:30.
\<close>

lemma calculateNextRun_skipped_reading:
  "calculateNextRun newYork 1710057600000 1710057600000
     ((workflowOf [stepA])\<lparr>schedule := Some nights\<rparr>) = Some (Num 1710142200000) \<and>
   atTime newYork (localDay newYork 1710057600000 + 1) 2 30 = 1710138600000 \<and>
   \<not> readable newYork (localDay newYork 1710057600000) 2 30"
  by (simp add: calculateNextRun_def parse_half_past_two nights_def mornings_def workflowOf_def
        setHours_def addDays_def zone_defs)



subsection \<open>checkSchedules\<close>

lemma due_later: "due now w \<Longrightarrow> now \<le> later \<Longrightarrow> due later w"
  by (auto simp: due_def split: option.splits)

lemma checkWorkflow_not_due:
  "\<not> due now w \<Longrightarrow> checkWorkflow cb tz now w s = checkWorkflow cb' tz now w s"
  by (auto simp: checkWorkflow_def due_def split: option.splits)

text \<open>
  C1. Take a workflow that is due at the tick's \<open>now\<close> (enabled, schedule enabled,
  \<open>nextRun\<close> set and not after \<open>now\<close>); the loop body of \<open>checkSchedules\<close> then calls
  \<open>onWorkflowRun\<close> on it. If that call rejects, the body returns the workflow object as
  it was (\<open>lastRun\<close> and \<open>nextRun\<close> unchanged) and the store as the call left it
  (nothing is saved), so the workflow is due at every later tick. If the call resolves,
  the object gets \<open>lastRun = now\<close> and the recomputed \<open>nextRun\<close>, and is saved under
  its id with \<open>updatedAt\<close> stamped. For a workflow that is not due the body does not
  depend on \<open>onWorkflowRun\<close> at all.
\<close>

theorem checkWorkflow_run_outcome:
  "(due now w \<longrightarrow>
      (\<forall>sch r s'. schedule w = Some sch \<and>
           onWorkflowRun cb w (onLog (SchedRun (wf_name w)) s) = (r, s') \<longrightarrow>
         (\<forall>msg. r = Some msg \<longrightarrow>
            checkWorkflow cb tz now w s = (w, onLog (SchedError (wf_name w) msg) s') \<and>
            files (snd (checkWorkflow cb tz now w s)) = files s' \<and>
            (\<forall>later. now \<le> later \<longrightarrow> due later w)) \<and>
         (r = None \<longrightarrow>
            (\<exists>saved next.
               next = orUndefined (calculateNextRun tz (clock s') (clock s')
                        (w\<lparr>schedule := Some (sch\<lparr>lastRun := Some now\<rparr>)\<rparr>)) \<and>
               saved = w\<lparr>schedule := Some (sch\<lparr>lastRun := Some now, nextRun := next\<rparr>),
                         updatedAt := clock s'\<rparr> \<and>
               fst (checkWorkflow cb tz now w s) = saved \<and>
               files (snd (checkWorkflow cb tz now w s)) =
                 AList.update (wf_id w) (Some saved) (files s') \<and>
               map_of (files (snd (checkWorkflow cb tz now w s))) (wf_id w) = Some (Some saved))))) \<and>
   (\<not> due now w \<longrightarrow> checkWorkflow cb tz now w s = checkWorkflow cb' tz now w s)"
proof -
  have raised: "checkWorkflow cb tz now w s = (w, onLog (SchedError (wf_name w) msg) s')"
    if "due now w" "schedule w = Some sch"
      "onWorkflowRun cb w (onLog (SchedRun (wf_name w)) s) = (Some msg, s')" for sch msg s'
    using that by (auto simp: checkWorkflow_def due_def split: option.splits)
  have returned: "checkWorkflow cb tz now w s =
      (w\<lparr>schedule := Some (sch\<lparr>lastRun := Some now, nextRun :=
            orUndefined (calculateNextRun tz (clock s') (clock s')
               (w\<lparr>schedule := Some (sch\<lparr>lastRun := Some now\<rparr>)\<rparr>))\<rparr>), updatedAt := clock s'\<rparr>,
       onLog (SchedDone (wf_name w)
           (orUndefined (calculateNextRun tz (clock s') (clock s')
               (w\<lparr>schedule := Some (sch\<lparr>lastRun := Some now\<rparr>)\<rparr>))))
         (s'\<lparr>files := AList.update (wf_id w)
            (Some (w\<lparr>schedule := Some (sch\<lparr>lastRun := Some now, nextRun :=
               orUndefined (calculateNextRun tz (clock s') (clock s')
                 (w\<lparr>schedule := Some (sch\<lparr>lastRun := Some now\<rparr>)\<rparr>))\<rparr>), updatedAt := clock s'\<rparr>))
            (files s')\<rparr>))"
    if "due now w" "schedule w = Some sch"
      "onWorkflowRun cb w (onLog (SchedRun (wf_name w)) s) = (None, s')" for sch s'
    using that
    by (auto simp: checkWorkflow_def due_def saveWorkflow_def Let_def split: option.splits)
  show ?thesis
    using raised returned due_later checkWorkflow_not_due[of now w cb tz s cb']
    by (auto simp: onLog_def AList.update_conv')
qed

theorem checkWorkflow_run_outcome_witness:
  "due 5000 hourly \<and>
   checkWorkflow failing utcZone 5000 hourly world0 =
     (hourly, world0\<lparr>said := [SchedRun ''demo'', SchedError ''demo'' ''boom''], host := 1\<rparr>) \<and>
   host (checkSchedules (Some failing) utcZone (checkSchedules (Some failing) utcZone world0)) = 2 \<and>
   files (checkSchedules (Some failing) utcZone (checkSchedules (Some failing) utcZone world0)) =
     files world0 \<and>
   schedule (fst (checkWorkflow succeeding utcZone 5000 hourly world0)) =
     Some (everyHour\<lparr>lastRun := Some 5000, nextRun := Some 3605000\<rparr>) \<and>
   map_of (files (snd (checkWorkflow succeeding utcZone 5000 hourly world0))) ''wf-1'' =
     Some (Some (fst (checkWorkflow succeeding utcZone 5000 hourly world0)))"
proof -
  have d: "due 5000 hourly" "schedule hourly = Some everyHour" "wf_id hourly = ''wf-1''"
    "wf_name hourly = ''demo''"
    by (simp_all add: due_def hourly_def everyHour_def workflowOf_def)
  have rejected: "onWorkflowRun failing hourly (onLog (SchedRun (wf_name hourly)) world0) =
      (Some ''boom'', world0\<lparr>said := [SchedRun ''demo''], host := 1\<rparr>)"
    by (simp add: failing_def onLog_def world0_def d)
  have resolved: "onWorkflowRun succeeding hourly (onLog (SchedRun (wf_name hourly)) world0) =
      (None, world0\<lparr>said := [SchedRun ''demo''], host := 1, clock := 5030\<rparr>)"
    by (simp add: succeeding_def onLog_def world0_def d)
  have recomputed: "orUndefined (calculateNextRun utcZone 5030 5030
      (hourly\<lparr>schedule := Some (everyHour\<lparr>lastRun := Some 5000\<rparr>)\<rparr>)) = Some 3605000"
    by (simp add: calculateNextRun_def orUndefined_def orNum_def hourly_def everyHour_def
          workflowOf_def)
  have ticks: "host (checkSchedules (Some failing) utcZone (checkSchedules (Some failing) utcZone world0)) = 2 \<and>
      files (checkSchedules (Some failing) utcZone (checkSchedules (Some failing) utcZone world0)) =
        files world0"
    by (simp add: checkSchedules_def loadWorkflows_def checkWorkflow_def world0_def failing_def
          hourly_def everyHour_def workflowOf_def onLog_def)
  from checkWorkflow_run_outcome [of 5000 hourly failing world0 utcZone failing] d rejected
  have fail: "checkWorkflow failing utcZone 5000 hourly world0 =
      (hourly, world0\<lparr>said := [SchedRun ''demo'', SchedError ''demo'' ''boom''], host := 1\<rparr>)"
    by (simp add: onLog_def world0_def)
  from checkWorkflow_run_outcome [of 5000 hourly succeeding world0 utcZone succeeding] d resolved recomputed
  have ok: "schedule (fst (checkWorkflow succeeding utcZone 5000 hourly world0)) =
       Some (everyHour\<lparr>lastRun := Some 5000, nextRun := Some 3605000\<rparr>) \<and>
     map_of (files (snd (checkWorkflow succeeding utcZone 5000 hourly world0))) ''wf-1'' =
       Some (Some (fst (checkWorkflow succeeding utcZone 5000 hourly world0)))"
    by (simp add: world0_def)
  from d(1) fail ticks ok show ?thesis by blast
qed

end
